theory Spec2Isabelle
  imports Main "HOL-Library.Word" "HOL-Library.Sublist"
begin

unbundle bit_operations_syntax

section \<open>Errors\<close>

text \<open>
  The exceptions that can leave the functions of \<^verbatim>\<open>flow/network.cpp\<close>:
  \<^verbatim>\<open>connection_string_invalid\<close> is the one the file throws itself; \<^verbatim>\<open>std::invalid_argument\<close>
  and \<^verbatim>\<open>std::out_of_range\<close> are thrown by \<^verbatim>\<open>std::stoi\<close> and \<^verbatim>\<open>std::string::substr\<close>;
  \<^verbatim>\<open>boost::system::system_error\<close> is what \<^verbatim>\<open>boost::asio::ip::address::from_string\<close> throws;
  \<^verbatim>\<open>internal_error\<close> is what a failed \<^verbatim>\<open>ASSERT\<close> of flow raises.
\<close>

datatype error =
    connection_string_invalid
  | std_invalid_argument
  | std_out_of_range
  | boost_system_error
  | internal_error

section \<open>The C and C++ library functions the file calls\<close>

subsection \<open>C strings and \<^verbatim>\<open>std::string\<close>\<close>

text \<open>
  A \<^verbatim>\<open>std::string\<close> is a list of bytes and may hold the byte 0; the C functions
  (\<^verbatim>\<open>strcmp\<close>, \<^verbatim>\<open>sscanf\<close>, \<^verbatim>\<open>strtol\<close>, the \<^verbatim>\<open>%s\<close> of \<^verbatim>\<open>format\<close>) read
  \<^verbatim>\<open>c_str()\<close> up to the first byte 0.
\<close>

definition NUL :: char where
  "NUL = CHR 0x00"

definition c_str :: "string \<Rightarrow> string" where
  "c_str s = takeWhile (\<lambda>c. c \<noteq> NUL) s"

text \<open>
  \<^verbatim>\<open>s[pos]\<close>: the character at \<^verbatim>\<open>pos\<close> and, since C++11, the byte 0 at \<^verbatim>\<open>pos == size()\<close>.
  The file never reads beyond \<^verbatim>\<open>size()\<close>.
\<close>

definition string_at :: "string \<Rightarrow> nat \<Rightarrow> char" where
  "string_at s pos = (if pos < length s then s ! pos else NUL)"

text \<open>\<^verbatim>\<open>s.find_first_of(c, pos)\<close>: the first index at or after \<^verbatim>\<open>pos\<close> that holds \<^verbatim>\<open>c\<close>;
  \<open>None\<close> is \<^verbatim>\<open>npos\<close>.\<close>

definition find_first_of :: "string \<Rightarrow> char \<Rightarrow> nat \<Rightarrow> nat option" where
  "find_first_of s c pos =
     (let k = pos + length (takeWhile (\<lambda>x. x \<noteq> c) (drop pos s))
      in if k < length s then Some k else None)"

text \<open>\<^verbatim>\<open>s.substr(pos, n)\<close> and \<^verbatim>\<open>s.substr(pos)\<close>: \<^verbatim>\<open>std::out_of_range\<close> when
  \<^verbatim>\<open>pos > size()\<close>.\<close>

definition substr :: "string \<Rightarrow> nat \<Rightarrow> nat \<Rightarrow> error + string" where
  "substr s pos n = (if length s < pos then Inl std_out_of_range else Inr (take n (drop pos s)))"

definition substr_from :: "string \<Rightarrow> nat \<Rightarrow> error + string" where
  "substr_from s pos = (if length s < pos then Inl std_out_of_range else Inr (drop pos s))"

text \<open>\<^verbatim>\<open>strcmp\<close> on two C strings (no byte 0 inside): bytes compare as unsigned char; only the
  sign of the result is specified.\<close>

fun strcmp :: "string \<Rightarrow> string \<Rightarrow> int" where
  "strcmp [] [] = 0"
| "strcmp [] (y # ys) = - 1"
| "strcmp (x # xs) [] = 1"
| "strcmp (x # xs) (y # ys) =
     (if x = y then strcmp xs ys
      else if (of_char x :: nat) < of_char y then - 1 else 1)"

subsection \<open>Decimal integers: \<^verbatim>\<open>strtol\<close>, \<^verbatim>\<open>%d\<close>\<close>

definition isspace :: "char \<Rightarrow> bool" where
  "isspace c = (c \<in> set [CHR '' '', CHR 0x09, CHR 0x0A, CHR 0x0B, CHR 0x0C, CHR 0x0D])"

definition isdigit :: "char \<Rightarrow> bool" where
  "isdigit c = (c \<in> set ''0123456789'')"

definition digit_value :: "char \<Rightarrow> nat" where
  "digit_value c = of_char c - 48"

definition digits_value :: "string \<Rightarrow> nat" where
  "digits_value ds = foldl (\<lambda>acc c. 10 * acc + digit_value c) 0 ds"

text \<open>
  The subject sequence of \<^verbatim>\<open>strtol(_, _, 10)\<close> and of the \<^verbatim>\<open>%d\<close> of \<^verbatim>\<open>scanf\<close>: white space
  is skipped, then an optional sign, then at least one decimal digit. The result is the
  number read (as a mathematical integer) and the rest of the input; \<open>None\<close> when no
  number stands there.
\<close>

definition scan_int :: "string \<Rightarrow> (int \<times> string) option" where
  "scan_int s =
     (let t = dropWhile isspace s;
          neg = (t \<noteq> [] \<and> hd t = CHR ''-'');
          u = (if t \<noteq> [] \<and> (hd t = CHR ''-'' \<or> hd t = CHR ''+'') then tl t else t);
          ds = takeWhile isdigit u
      in if ds = [] then None
         else Some (if neg then - int (digits_value ds) else int (digits_value ds),
                    dropWhile isdigit u))"

text \<open>The numbers an \<^verbatim>\<open>int\<close> can hold: \<^verbatim>\<open>INT_MIN\<close> to \<^verbatim>\<open>INT_MAX\<close>, on 32 bits.\<close>

definition is_int :: "int \<Rightarrow> bool" where
  "is_int v = (- (2 ^ 31) \<le> v \<and> v \<le> 2 ^ 31 - 1)"

text \<open>
  The numbers a \<^verbatim>\<open>long\<close> can hold, on 64 bits, and what \<^verbatim>\<open>strtol\<close> returns for the number
  \<open>v\<close> that stands in the text: \<open>v\<close> itself, or, with \<^verbatim>\<open>ERANGE\<close>, the bound of
  \<^verbatim>\<open>long\<close> that \<open>v\<close> lies beyond (\<^verbatim>\<open>LONG_MIN\<close>, \<^verbatim>\<open>LONG_MAX\<close>).
\<close>

definition is_long :: "int \<Rightarrow> bool" where
  "is_long v = (- (2 ^ 63) \<le> v \<and> v \<le> 2 ^ 63 - 1)"

definition strtol_value :: "int \<Rightarrow> int" where
  "strtol_value v = (if v < - (2 ^ 63) then - (2 ^ 63) else if 2 ^ 63 - 1 < v then 2 ^ 63 - 1 else v)"

text \<open>
  \<^verbatim>\<open>std::stoi(str)\<close>: \<^verbatim>\<open>strtol\<close> on \<^verbatim>\<open>str.c_str()\<close>; \<^verbatim>\<open>std::invalid_argument\<close> when
  no number stands at the front, \<^verbatim>\<open>std::out_of_range\<close> when the number is not an
  \<^verbatim>\<open>int\<close> (which includes the numbers on which \<^verbatim>\<open>strtol\<close> reports \<^verbatim>\<open>ERANGE\<close>). What
  follows the number is ignored. The \<^verbatim>\<open>int\<close> is a 32-bit word.
\<close>

definition stoi :: "string \<Rightarrow> error + 32 word" where
  "stoi str =
     (case scan_int (c_str str) of
        None \<Rightarrow> Inl std_invalid_argument
      | Some (v, rest) \<Rightarrow>
          if is_int v then Inr (word_of_int v) else Inl std_out_of_range)"

subsection \<open>\<^verbatim>\<open>sscanf\<close>\<close>

text \<open>
  The directives of the one format the file scans with, \<^verbatim>\<open>"%d.%d.%d.%d:%d%n"\<close>:
  \<^verbatim>\<open>%d\<close>, \<^verbatim>\<open>%n\<close> and an ordinary character, which must match the next input character.
\<close>

datatype directive = Conv_d | Conv_n | Ordinary char

definition EOF :: int where
  "EOF = - 1"

text \<open>
  \<open>vsscanf fmt inp k vals n\<close> runs the directives \<open>fmt\<close> on the input \<open>inp\<close>, with
  \<open>k\<close> characters read so far, \<open>vals\<close> the \<^verbatim>\<open>int\<close>s assigned so far and \<open>n\<close> what
  \<^verbatim>\<open>%n\<close> has stored (\<open>None\<close>: nothing yet). It returns \<^verbatim>\<open>sscanf\<close>'s return value (the
  number of assignments, \<^verbatim>\<open>EOF\<close> when the input ends before the first conversion), the
  assigned values and what \<^verbatim>\<open>%n\<close> stored. For a number that is not an \<^verbatim>\<open>int\<close> the C
  standard leaves \<^verbatim>\<open>%d\<close> undefined; the model does what glibc does: \<^verbatim>\<open>%d\<close> converts
  with \<^verbatim>\<open>strtol\<close> and stores the \<^verbatim>\<open>long\<close> it returns as an \<^verbatim>\<open>int\<close>, that is reduced to
  32 bits.
\<close>

fun vsscanf :: "directive list \<Rightarrow> string \<Rightarrow> nat \<Rightarrow> 32 word list \<Rightarrow> nat option
    \<Rightarrow> int \<times> 32 word list \<times> nat option" where
  "vsscanf [] inp k vals n = (int (length vals), vals, n)"
| "vsscanf (Conv_n # fmt) inp k vals n = vsscanf fmt inp k vals (Some k)"
| "vsscanf (Ordinary c # fmt) inp k vals n =
     (case inp of
        [] \<Rightarrow> (if vals = [] then EOF else int (length vals), vals, n)
      | x # r \<Rightarrow>
          if x = c then vsscanf fmt r (Suc k) vals n
          else (int (length vals), vals, n))"
| "vsscanf (Conv_d # fmt) inp k vals n =
     (if dropWhile isspace inp = [] then
        (if vals = [] then EOF else int (length vals), vals, n)
      else
        (case scan_int inp of
           None \<Rightarrow> (int (length vals), vals, n)
         | Some (v, r) \<Rightarrow>
             vsscanf fmt r (k + (length inp - length r))
               (vals @ [word_of_int (strtol_value v)]) n))"

definition sscanf :: "string \<Rightarrow> directive list \<Rightarrow> int \<times> 32 word list \<times> nat option" where
  "sscanf str fmt = vsscanf fmt str 0 [] None"

subsection \<open>\<^verbatim>\<open>format\<close>\<close>

text \<open>
  Modelled from the spec: \<^verbatim>\<open>format\<close>, flow's string formatting helper, is not among the
  sources. As spec sections 4.1 and 4.2 describe the texts it prints, it formats as
  \<^verbatim>\<open>printf\<close> does: \<^verbatim>\<open>%d\<close> prints decimal digits, with a minus sign before a negative
  number, and \<^verbatim>\<open>%s\<close> prints a C string.
\<close>

definition digit_char :: "nat \<Rightarrow> char" where
  "digit_char d = ''0123456789'' ! d"

fun dec :: "nat \<Rightarrow> string" where
  "dec n = (if n < 10 then [digit_char n] else dec (n div 10) @ [digit_char (n mod 10)])"

definition format_d :: "int \<Rightarrow> string" where
  "format_d i = (if i < 0 then CHR ''-'' # dec (nat (- i)) else dec (nat i))"

section \<open>IPAddress\<close>

text \<open>
  \<^verbatim>\<open>IPAddress\<close> holds a \<^verbatim>\<open>std::array<uint8_t, 16>\<close> and the flag \<^verbatim>\<open>isV6addr\<close>.
\<close>

record IPAddress =
  store :: "8 word list"
  isV6addr :: bool

text \<open>
  \<^verbatim>\<open>parts[0] = v4addr\<close> writes the four bytes of the integer at the front of the store,
  and \<^verbatim>\<open>toV4\<close> reads them back, in the byte order of the machine: little-endian on the
  platforms FoundationDB builds for.
\<close>

definition u32_to_bytes :: "32 word \<Rightarrow> 8 word list" where
  "u32_to_bytes v = [ucast v, ucast (drop_bit 8 v), ucast (drop_bit 16 v), ucast (drop_bit 24 v)]"

definition u32_of_bytes :: "8 word list \<Rightarrow> 32 word" where
  "u32_of_bytes bs =
     (case bs of
        b0 # b1 # b2 # b3 # _ \<Rightarrow>
          ucast b0 OR push_bit 8 (ucast b1) OR push_bit 16 (ucast b2) OR push_bit 24 (ucast b3)
      | _ \<Rightarrow> 0)"

definition IPAddress_default :: IPAddress where
  "IPAddress_default = \<lparr>store = replicate 16 0, isV6addr = False\<rparr>"

definition IPAddress_v6 :: "8 word list \<Rightarrow> IPAddress" where
  "IPAddress_v6 v6addr = \<lparr>store = v6addr, isV6addr = True\<rparr>"

definition IPAddress_v4 :: "32 word \<Rightarrow> IPAddress" where
  "IPAddress_v4 v4addr = \<lparr>store = u32_to_bytes v4addr @ replicate 12 0, isV6addr = False\<rparr>"

definition toV4 :: "IPAddress \<Rightarrow> 32 word" where
  "toV4 a = u32_of_bytes (store a)"

text \<open>\<^verbatim>\<open>isV6()\<close> is declared in the header: it returns the flag.\<close>

definition IPAddress_isV6 :: "IPAddress \<Rightarrow> bool" where
  "IPAddress_isV6 a = isV6addr a"

definition IPAddress_eq :: "IPAddress \<Rightarrow> IPAddress \<Rightarrow> bool" where
  "IPAddress_eq a addr = (isV6addr a = isV6addr addr \<and> store a = store addr)"

definition IPAddress_neq :: "IPAddress \<Rightarrow> IPAddress \<Rightarrow> bool" where
  "IPAddress_neq a addr = (\<not> IPAddress_eq a addr)"

text \<open>\<^verbatim>\<open>operator<\<close> of \<^verbatim>\<open>std::array\<close> is \<^verbatim>\<open>std::lexicographical_compare\<close>; the elements are
  unsigned bytes.\<close>

fun lexicographical_compare :: "8 word list \<Rightarrow> 8 word list \<Rightarrow> bool" where
  "lexicographical_compare [] [] = False"
| "lexicographical_compare [] (y # ys) = True"
| "lexicographical_compare (x # xs) [] = False"
| "lexicographical_compare (x # xs) (y # ys) =
     (if x < y then True else if y < x then False else lexicographical_compare xs ys)"

definition IPAddress_less :: "IPAddress \<Rightarrow> IPAddress \<Rightarrow> bool" where
  "IPAddress_less a addr =
     (if IPAddress_isV6 a = IPAddress_isV6 addr
      then lexicographical_compare (store a) (store addr)
      else IPAddress_isV6 a < IPAddress_isV6 addr)"

text \<open>
  \<^verbatim>\<open>boost::asio::ip::address\<close>, as far as the file reads it: a v4 address gives its
  32-bit number (\<^verbatim>\<open>to_ulong\<close>), a v6 address its 16 bytes (\<^verbatim>\<open>to_bytes\<close>). The two text
  conversions of the library are parameters of the model: \<open>from_string\<close> is
  \<^verbatim>\<open>address::from_string\<close> (\<open>Inl\<close>: it throws) and \<open>to_string\<close> is
  \<^verbatim>\<open>address_v6(bytes).to_string()\<close>.
\<close>

datatype asio_address = address_v4 "32 word" | address_v6 "8 word list"

definition is_v6 :: "asio_address \<Rightarrow> bool" where
  "is_v6 addr = (case addr of address_v4 ulong \<Rightarrow> False | address_v6 bytes \<Rightarrow> True)"

definition IPAddress_toString :: "(8 word list \<Rightarrow> string) \<Rightarrow> IPAddress \<Rightarrow> string" where
  "IPAddress_toString to_string a =
     (if IPAddress_isV6 a then to_string (store a)
      else
        (let ip4 = toV4 a
         in format_d (sint (drop_bit 24 ip4 AND 0xff)) @ ''.'' @
            format_d (sint (drop_bit 16 ip4 AND 0xff)) @ ''.'' @
            format_d (sint (drop_bit 8 ip4 AND 0xff)) @ ''.'' @
            format_d (sint (ip4 AND 0xff))))"

text \<open>
  \<^verbatim>\<open>IPAddress::parse\<close>: the body of the \<^verbatim>\<open>try\<close> block raises what \<open>from_string\<close> raises;
  \<^verbatim>\<open>catch (...)\<close> turns every exception into the absent result. The result type keeps
  the possibility of an exception leaving the function.
\<close>

definition IPAddress_parse_try :: "(string \<Rightarrow> error + asio_address) \<Rightarrow> string
    \<Rightarrow> error + IPAddress option" where
  "IPAddress_parse_try from_string str =
     (case from_string str of
        Inl e \<Rightarrow> Inl e
      | Inr (address_v6 bytes) \<Rightarrow> Inr (Some (IPAddress_v6 bytes))
      | Inr (address_v4 ulong) \<Rightarrow> Inr (Some (IPAddress_v4 ulong)))"

definition IPAddress_parse :: "(string \<Rightarrow> error + asio_address) \<Rightarrow> string
    \<Rightarrow> error + IPAddress option" where
  "IPAddress_parse from_string str =
     (case IPAddress_parse_try from_string str of
        Inl e \<Rightarrow> Inr None
      | Inr r \<Rightarrow> Inr r)"

definition IPAddress_isValid :: "IPAddress \<Rightarrow> bool" where
  "IPAddress_isValid a =
     (if \<not> IPAddress_isV6 a then toV4 a \<noteq> 0
      else list_ex (\<lambda>part. 0 < part) (store a))"

section \<open>NetworkAddress\<close>

text \<open>
  Modelled from the spec: the header \<^verbatim>\<open>flow/network.h\<close>, which declares the struct, its
  constructors, the flag bits and the accessors \<^verbatim>\<open>isTLS()\<close> and \<^verbatim>\<open>isV6()\<close>, is not among
  the sources. Spec section 3: an IPAddress, a 16-bit port, a flags bitfield with a
  TLS bit and one more named bit; the port is never negative, so it is unsigned. The
  bits have the values of the header's enum (\<^verbatim>\<open>FLAG_PRIVATE = 1, FLAG_TLS = 2\<close>).
\<close>

record NetworkAddress =
  ip :: IPAddress
  port :: "16 word"
  flags :: "16 word"

definition FLAG_PRIVATE :: "16 word" where
  "FLAG_PRIVATE = 1"

definition FLAG_TLS :: "16 word" where
  "FLAG_TLS = 2"

text \<open>
  Modelled from the spec: the constructor
  \<^verbatim>\<open>NetworkAddress(address, port, isPublic, isTLS)\<close> of the header (spec 4.2, step 4:
  the result has the address, port and TLS as parsed). The third argument clears or
  sets the second flag bit, as the header's constructor does; \<^verbatim>\<open>parse\<close> always passes
  \<^verbatim>\<open>true\<close>. An \<^verbatim>\<open>int\<close> passed as the port is converted to the 16-bit field by the
  caller (\<open>ucast\<close>).
\<close>

definition NetworkAddress_ctor :: "IPAddress \<Rightarrow> 16 word \<Rightarrow> bool \<Rightarrow> bool \<Rightarrow> NetworkAddress" where
  "NetworkAddress_ctor address prt isPublic isTLS =
     \<lparr>ip = address, port = prt,
      flags = (if isPublic then 0 else FLAG_PRIVATE) OR (if isTLS then FLAG_TLS else 0)\<rparr>"

definition isTLS :: "NetworkAddress \<Rightarrow> bool" where
  "isTLS a = (flags a AND FLAG_TLS \<noteq> 0)"

definition isV6 :: "NetworkAddress \<Rightarrow> bool" where
  "isV6 a = IPAddress_isV6 (ip a)"

text \<open>The test of the suffix: \<^verbatim>\<open>s.size() > 4 && strcmp(s.c_str() + s.size() - 4, ":tls") == 0\<close>.\<close>

definition has_tls_suffix :: "string \<Rightarrow> bool" where
  "has_tls_suffix s = (4 < length s \<and> strcmp (c_str (drop (length s - 4) s)) '':tls'' = 0)"

definition address_format :: "directive list" where
  "address_format =
     [Conv_d, Ordinary CHR ''.'', Conv_d, Ordinary CHR ''.'', Conv_d, Ordinary CHR ''.'', Conv_d,
      Ordinary CHR '':'', Conv_d, Conv_n]"

text \<open>
  \<^verbatim>\<open>NetworkAddress::parse\<close>. In the bracketed branch \<^verbatim>\<open>addrEnd\<close> is at least 1 (position
  0 holds the opening bracket), so \<^verbatim>\<open>addrEnd - 1\<close> does not wrap; \<^verbatim>\<open>std::stoi\<close> runs
  before \<^verbatim>\<open>IPAddress::parse\<close>. In the dotted branch \<^verbatim>\<open>count\<close> starts as \<^verbatim>\<open>-1\<close>, which no
  size equals; the shifts and sums are on 32-bit words.
\<close>

definition NetworkAddress_parse :: "(string \<Rightarrow> error + asio_address) \<Rightarrow> string
    \<Rightarrow> error + NetworkAddress" where
  "NetworkAddress_parse from_string s =
     (let tls = has_tls_suffix s;
          f = (if tls then take (length s - 4) s else s)
      in if string_at f 0 = CHR ''['' then
           (case find_first_of f (CHR '']'') 0 of
              None \<Rightarrow> Inl connection_string_invalid
            | Some addrEnd \<Rightarrow>
                if string_at f (addrEnd + 1) \<noteq> CHR '':'' then Inl connection_string_invalid
                else
                  (case substr_from f (addrEnd + 2) of
                     Inl e \<Rightarrow> Inl e
                   | Inr portText \<Rightarrow>
                  (case stoi portText of
                     Inl e \<Rightarrow> Inl e
                   | Inr prt \<Rightarrow>
                  (case substr f 1 (addrEnd - 1) of
                     Inl e \<Rightarrow> Inl e
                   | Inr addrText \<Rightarrow>
                  (case IPAddress_parse from_string addrText of
                     Inl e \<Rightarrow> Inl e
                   | Inr None \<Rightarrow> Inl connection_string_invalid
                   | Inr (Some addr) \<Rightarrow> Inr (NetworkAddress_ctor addr (ucast prt) True tls))))))
         else
           (case sscanf (c_str f) address_format of
              (ret, vals, count) \<Rightarrow>
                if ret < 5 \<or> count \<noteq> Some (length f) then Inl connection_string_invalid
                else
                  (case vals of
                     [a, b, c, d, prt] \<Rightarrow>
                       Inr (NetworkAddress_ctor
                              (IPAddress_v4 (push_bit 24 a + push_bit 16 b + push_bit 8 c + d))
                              (ucast prt) True tls)
                   | _ \<Rightarrow> Inl connection_string_invalid)))"

text \<open>
  \<^verbatim>\<open>NetworkAddress::parseList\<close>: the loop over the start \<^verbatim>\<open>p\<close> of the next piece, with
  the vector \<^verbatim>\<open>coord\<close> built so far. An exception of \<^verbatim>\<open>parse\<close> leaves the loop and the
  function. The positions \<^verbatim>\<open>p\<close> and \<^verbatim>\<open>pComma\<close> are \<^verbatim>\<open>int\<close>s in the source, natural
  numbers here: the texts are shorter than \<open>2 ^ 31\<close> characters.
\<close>

function parseList_loop :: "(string \<Rightarrow> error + asio_address) \<Rightarrow> string \<Rightarrow> nat
    \<Rightarrow> NetworkAddress list \<Rightarrow> error + NetworkAddress list" where
  "parseList_loop from_string addrs p coord =
     (if p \<le> length addrs then
        (let pComma = (case find_first_of addrs (CHR '','') p of
                         None \<Rightarrow> length addrs
                       | Some i \<Rightarrow> i)
         in case substr addrs p (pComma - p) of
              Inl e \<Rightarrow> Inl e
            | Inr piece \<Rightarrow>
                (case NetworkAddress_parse from_string piece of
                   Inl e \<Rightarrow> Inl e
                 | Inr parsedAddress \<Rightarrow>
                     parseList_loop from_string addrs (pComma + 1) (coord @ [parsedAddress])))
      else Inr coord)"
  by pat_completeness auto
termination
proof (relation "measure (\<lambda>(from_string, addrs, p, coord). Suc (length addrs) - p)")
  show "wf (measure (\<lambda>(from_string, addrs, p, coord). Suc (length addrs) - p))"
    by simp
next
  fix from_string :: "string \<Rightarrow> error + asio_address"
  fix addrs :: string and p :: nat and coord :: "NetworkAddress list"
  fix pComma :: nat and piece :: string and parsedAddress :: NetworkAddress
  assume le: "p \<le> length addrs"
    and pc: "pComma = (case find_first_of addrs (CHR '','') p of None \<Rightarrow> length addrs | Some i \<Rightarrow> i)"
  have "p \<le> pComma \<and> pComma \<le> length addrs"
    using le pc by (auto simp: find_first_of_def Let_def split: if_splits)
  then show "((from_string, addrs, pComma + 1, coord @ [parsedAddress]), (from_string, addrs, p, coord))
      \<in> measure (\<lambda>(from_string, addrs, p, coord). Suc (length addrs) - p)"
    by auto
qed

definition NetworkAddress_parseList :: "(string \<Rightarrow> error + asio_address) \<Rightarrow> string
    \<Rightarrow> error + NetworkAddress list" where
  "NetworkAddress_parseList from_string addrs = parseList_loop from_string addrs 0 []"

text \<open>
  \<^verbatim>\<open>NetworkAddress::toString\<close>: the \<^verbatim>\<open>%s\<close> of \<^verbatim>\<open>format\<close> prints the C string of the
  address text, the \<^verbatim>\<open>%d\<close> the port, promoted from 16 bits to \<^verbatim>\<open>int\<close>.
\<close>

definition NetworkAddress_toString :: "(8 word list \<Rightarrow> string) \<Rightarrow> NetworkAddress \<Rightarrow> string" where
  "NetworkAddress_toString to_string a =
     (if isV6 a
      then ''['' @ c_str (IPAddress_toString to_string (ip a)) @ '']:'' @ format_d (uint (port a)) @
           (if isTLS a then '':tls'' else '''')
      else c_str (IPAddress_toString to_string (ip a)) @ '':'' @ format_d (uint (port a)) @
           (if isTLS a then '':tls'' else ''''))"

section \<open>INetworkConnections::connect\<close>

text \<open>
  \<^verbatim>\<open>addresses[i]\<close> checks no bound: \<open>None\<close> stands for the read outside the vector,
  which is undefined.
\<close>

definition vector_at :: "'a list \<Rightarrow> int \<Rightarrow> 'a option" where
  "vector_at v i = (if 0 \<le> i \<and> i < int (length v) then Some (v ! nat i) else None)"

text \<open>
  The lambda that \<^verbatim>\<open>connect\<close> hands to \<^verbatim>\<open>map\<close>. The random source \<^verbatim>\<open>g_random\<close> is a
  parameter: \<open>randomInt g lo hi\<close> is what \<^verbatim>\<open>g_random->randomInt(lo, hi)\<close> does in the
  generator state \<open>g\<close>: it draws a number (\<open>Inr\<close>) or raises (\<open>Inl\<close>), and leaves the
  generator in a new state. An exception in the lambda is the error of the future.
\<close>

definition pickEndpoint :: "('g \<Rightarrow> int \<Rightarrow> int \<Rightarrow> ('e + int) \<times> 'g) \<Rightarrow> bool \<Rightarrow> NetworkAddress list \<Rightarrow> 'g
    \<Rightarrow> ('e + NetworkAddress) option \<times> 'g" where
  "pickEndpoint randomInt useTLS addresses g =
     (case randomInt g 0 (int (length addresses)) of
        (Inl e, g') \<Rightarrow> (Some (Inl e), g')
      | (Inr i, g') \<Rightarrow>
          (case vector_at addresses i of
             None \<Rightarrow> (None, g')
           | Some addr \<Rightarrow> (Some (Inr (if useTLS then addr\<lparr>flags := FLAG_TLS\<rparr> else addr)), g')))"

text \<open>
  \<^verbatim>\<open>INetworkConnections::connect(host, service, useTLS)\<close>. A future is modelled by its
  outcome, \<open>Inl\<close> an error and \<open>Inr\<close> a value. Modelled from the spec: \<^verbatim>\<open>map\<close> and
  \<^verbatim>\<open>mapAsync\<close> (flow's generic actors) are not among the sources; as the comments in
  \<^verbatim>\<open>connect\<close> and spec section 4.3 say, each waits for its future, passes an error on
  and applies its function to a value. The resolver \<^verbatim>\<open>resolveTCPEndpoint\<close> and the
  virtual \<^verbatim>\<open>connect(addr, host)\<close> are parameters. The result is the outcome of the
  returned future (\<open>None\<close>: the undefined read outside the vector was reached) and the
  state of the random source afterwards.
\<close>

definition connect :: "('g \<Rightarrow> int \<Rightarrow> int \<Rightarrow> ('e + int) \<times> 'g)
    \<Rightarrow> (string \<Rightarrow> string \<Rightarrow> 'e + NetworkAddress list)
    \<Rightarrow> (NetworkAddress \<Rightarrow> string \<Rightarrow> 'e + 'c) \<Rightarrow> string \<Rightarrow> string \<Rightarrow> bool \<Rightarrow> 'g
    \<Rightarrow> ('e + 'c) option \<times> 'g" where
  "connect randomInt resolveTCPEndpoint connect_addr host service useTLS g =
     (case resolveTCPEndpoint host service of
        Inl e \<Rightarrow> (Some (Inl e), g)
      | Inr addresses \<Rightarrow>
          (case pickEndpoint randomInt useTLS addresses g of
             (None, g') \<Rightarrow> (None, g')
           | (Some (Inl e), g') \<Rightarrow> (Some (Inl e), g')
           | (Some (Inr addr), g') \<Rightarrow> (Some (connect_addr addr host), g')))"

section \<open>parseList, as the specification words it\<close>

text \<open>
  Spec section 4.2: \<^verbatim>\<open>parseList\<close> splits the text on the comma (no escaping, no trimming),
  parses each piece with \<^verbatim>\<open>parse\<close> and returns the results in the order of the input;
  one piece that fails makes the whole operation fail. \<open>split_on\<close> is the splitting (a
  text with \<open>n\<close> separators has \<open>n + 1\<close> pieces, empty ones included) and \<open>parse_each\<close>
  the parsing of the pieces, first failure first.
\<close>

fun split_on :: "char \<Rightarrow> string \<Rightarrow> string list" where
  "split_on c [] = [[]]"
| "split_on c (x # xs) =
     (if x = c then [] # split_on c xs
      else (case split_on c xs of p # ps \<Rightarrow> (x # p) # ps | [] \<Rightarrow> [[x]]))"

fun parse_each :: "(string \<Rightarrow> error + asio_address) \<Rightarrow> string list \<Rightarrow> error + NetworkAddress list" where
  "parse_each from_string [] = Inr []"
| "parse_each from_string (piece # pieces) =
     (case NetworkAddress_parse from_string piece of
        Inl e \<Rightarrow> Inl e
      | Inr a \<Rightarrow>
          (case parse_each from_string pieces of
             Inl e \<Rightarrow> Inl e
           | Inr as \<Rightarrow> Inr (a # as)))"

section \<open>Sample data\<close>

text \<open>
  Two candidates of a resolver, two random sources that walk through the range they are
  asked for (on an empty range the first returns its lower bound, the second raises, as
  an assertion on the range does), three resolvers and a connection opener: the inputs
  the theorems about \<^verbatim>\<open>connect\<close> are run on.
\<close>

definition sample_candidates :: "NetworkAddress list" where
  "sample_candidates =
     [\<lparr>ip = IPAddress_v4 0x0A000001, port = 80, flags = 0\<rparr>,
      \<lparr>ip = IPAddress_v4 0x0A000002, port = 80, flags = FLAG_PRIVATE\<rparr>]"

definition cycling_randomInt :: "nat \<Rightarrow> int \<Rightarrow> int \<Rightarrow> (error + int) \<times> nat" where
  "cycling_randomInt g lo hi = (Inr (if lo < hi then lo + int g mod (hi - lo) else lo), Suc g)"

definition asserting_randomInt :: "nat \<Rightarrow> int \<Rightarrow> int \<Rightarrow> (error + int) \<times> nat" where
  "asserting_randomInt g lo hi =
     (if lo < hi then (Inr (lo + int g mod (hi - lo)), Suc g) else (Inl internal_error, g))"

definition sample_resolver :: "string \<Rightarrow> string \<Rightarrow> error + NetworkAddress list" where
  "sample_resolver host service = Inr sample_candidates"

definition failing_resolver :: "string \<Rightarrow> string \<Rightarrow> error + NetworkAddress list" where
  "failing_resolver host service = Inl boost_system_error"

definition empty_resolver :: "string \<Rightarrow> string \<Rightarrow> error + NetworkAddress list" where
  "empty_resolver host service = Inr []"

definition sample_connect_addr :: "NetworkAddress \<Rightarrow> string \<Rightarrow> error + NetworkAddress \<times> string" where
  "sample_connect_addr addr host = Inr (addr, host)"

text \<open>
  A stand-in for the text conversions of boost::asio, which answers for the addresses of
  the file's unit test \<^verbatim>\<open>/flow/network/ipaddress\<close> (the loopback address and
  \<^verbatim>\<open>2001:db8:85a3::8a2e:370:7334\<close>, in its full and its compressed form) and for
  \<^verbatim>\<open>127.0.0.1\<close>, and throws on every other text.
\<close>

definition loopback_bytes :: "8 word list" where
  "loopback_bytes = replicate 15 0 @ [1]"

definition test_bytes :: "8 word list" where
  "test_bytes = [0x20, 0x01, 0x0d, 0xb8, 0x85, 0xa3, 0, 0, 0, 0, 0x8a, 0x2e, 0x03, 0x70, 0x73, 0x34]"

definition sample_from_string :: "string \<Rightarrow> error + asio_address" where
  "sample_from_string s =
     (if s = ''::1'' then Inr (address_v6 loopback_bytes)
      else if s = ''2001:0db8:85a3:0000:0000:8a2e:0370:7334'' \<or> s = ''2001:db8:85a3::8a2e:370:7334''
      then Inr (address_v6 test_bytes)
      else if s = ''127.0.0.1'' then Inr (address_v4 0x7f000001)
      else Inl boost_system_error)"

definition sample_to_string :: "8 word list \<Rightarrow> string" where
  "sample_to_string bytes =
     (if bytes = loopback_bytes then ''::1''
      else if bytes = test_bytes then ''2001:db8:85a3::8a2e:370:7334''
      else ''::'')"

section \<open>Words and bytes\<close>

lemma u32_of_bytes_to_bytes: "u32_of_bytes (u32_to_bytes v @ bs) = v"
proof -
  have "(ucast (ucast v :: 8 word) :: 32 word) OR
        push_bit 8 (ucast (ucast (drop_bit 8 v) :: 8 word)) OR
        push_bit 16 (ucast (ucast (drop_bit 16 v) :: 8 word)) OR
        push_bit 24 (ucast (ucast (drop_bit 24 v) :: 8 word)) = v"
  proof (rule bit_word_eqI)
    fix n assume "n < LENGTH(32)"
    then consider "n < 8" | "8 \<le> n \<and> n < 16" | "16 \<le> n \<and> n < 24" | "24 \<le> n \<and> n < 32"
      by fastforce
    then show "bit ((ucast (ucast v :: 8 word) :: 32 word) OR
        push_bit 8 (ucast (ucast (drop_bit 8 v) :: 8 word)) OR
        push_bit 16 (ucast (ucast (drop_bit 16 v) :: 8 word)) OR
        push_bit 24 (ucast (ucast (drop_bit 24 v) :: 8 word))) n = bit v n"
      by cases (auto simp: bit_simps)
  qed
  then show ?thesis
    by (simp add: u32_of_bytes_def u32_to_bytes_def)
qed

lemma toV4_IPAddress_v4: "toV4 (IPAddress_v4 v) = v"
  by (simp add: toV4_def IPAddress_v4_def u32_of_bytes_to_bytes)

lemma IPAddress_sel:
  "isV6addr (IPAddress_v6 bs)" "store (IPAddress_v6 bs) = bs" "\<not> isV6addr (IPAddress_v4 w)"
  by (simp_all add: IPAddress_v6_def IPAddress_v4_def)

text \<open>The examples of spec section 8 for \<^verbatim>\<open>isValid\<close>.\<close>

lemma validity_examples:
  "\<not> IPAddress_isValid (IPAddress_v4 0)" "IPAddress_isValid (IPAddress_v4 1)"
  "\<not> IPAddress_isValid (IPAddress_v6 (replicate 16 0))" "IPAddress_isValid (IPAddress_v6 loopback_bytes)"
  by (simp_all add: IPAddress_isValid_def toV4_IPAddress_v4)
     (simp_all add: IPAddress_isV6_def IPAddress_sel loopback_bytes_def list_ex_iff)

lemma byte_mask: "(0xff :: 32 word) = mask 8"
  by (simp add: mask_eq_exp_minus_1)

lemma octets_recombine:
  fixes v :: "32 word"
  shows "push_bit 24 (drop_bit 24 v AND 0xff) + push_bit 16 (drop_bit 16 v AND 0xff)
       + push_bit 8 (drop_bit 8 v AND 0xff) + (v AND 0xff) = v"
proof -
  define a where "a = push_bit 24 (drop_bit 24 v AND mask 8)"
  define b where "b = push_bit 16 (drop_bit 16 v AND mask 8)"
  define c where "c = push_bit 8 (drop_bit 8 v AND mask 8)"
  define d where "d = v AND mask 8"
  have ba: "bit a n \<longleftrightarrow> 24 \<le> n \<and> n < 32 \<and> bit v n" for n
    by (auto simp: a_def bit_simps)
  have bb: "bit b n \<longleftrightarrow> 16 \<le> n \<and> n < 24 \<and> bit v n" for n
    by (auto simp: b_def bit_simps)
  have bc: "bit c n \<longleftrightarrow> 8 \<le> n \<and> n < 16 \<and> bit v n" for n
    by (auto simp: c_def bit_simps)
  have bd: "bit d n \<longleftrightarrow> n < 8 \<and> bit v n" for n
    by (auto simp: d_def bit_simps)
  have ab: "a + b = a OR b"
    by (rule disjunctive_add) (simp add: ba bb)
  have abc: "(a OR b) + c = (a OR b) OR c"
    by (rule disjunctive_add) (simp add: bit_or_iff ba bb bc)
  have abcd: "((a OR b) OR c) + d = ((a OR b) OR c) OR d"
    by (rule disjunctive_add) (simp add: bit_or_iff ba bb bc bd)
  have "((a OR b) OR c) OR d = v"
  proof (rule bit_word_eqI)
    fix n assume "n < LENGTH(32)"
    then show "bit (((a OR b) OR c) OR d) n = bit v n"
      unfolding bit_or_iff ba bb bc bd by auto
  qed
  then have "a + b + c + d = v"
    by (simp only: ab abc abcd)
  then show ?thesis
    by (simp only: byte_mask a_def b_def c_def d_def)
qed

lemma uint_octet:
  fixes v :: "32 word"
  shows "uint (v AND 0xff) < 256"
  using and_mask_lt_2p [of v 8] by (simp add: byte_mask)

lemma sint_octet:
  fixes v :: "32 word"
  shows "sint (v AND 0xff) = uint (v AND 0xff)"
proof -
  have "signed_take_bit 31 (uint (v AND 0xff)) = uint (v AND 0xff)"
  proof (rule signed_take_bit_int_eq_self)
    have "0 \<le> uint (v AND 0xff)" by simp
    then show "- (2 ^ 31) \<le> uint (v AND 0xff)" by (rule order_trans [rotated]) simp
    show "uint (v AND 0xff) < 2 ^ 31" using uint_octet [of v] by simp
  qed
  then show ?thesis
    by (simp add: sint_uint)
qed

section \<open>The order of IPAddress\<close>

lemma lexicographical_compare_lexord:
  "lexicographical_compare xs ys \<longleftrightarrow> (xs, ys) \<in> lexord {(x, y). x < y}"
  by (induction xs ys rule: lexicographical_compare.induct) auto

lemma lexicographical_compare_irrefl: "\<not> lexicographical_compare xs xs"
  by (induction xs) auto

lemma lexicographical_compare_trans:
  "lexicographical_compare xs ys \<Longrightarrow> lexicographical_compare ys zs \<Longrightarrow> lexicographical_compare xs zs"
proof (induction xs ys arbitrary: zs rule: lexicographical_compare.induct)
  case (4 x xs y ys)
  then show ?case by (cases zs) (auto split: if_splits)
qed (auto elim: lexicographical_compare.elims)

lemma lexicographical_compare_total:
  "lexicographical_compare xs ys \<or> xs = ys \<or> lexicographical_compare ys xs"
  by (induction xs ys rule: lexicographical_compare.induct) auto

lemma lexicographical_compare_asym:
  "lexicographical_compare xs ys \<Longrightarrow> \<not> lexicographical_compare ys xs"
  by (induction xs ys rule: lexicographical_compare.induct) (auto split: if_splits)

lemma IPAddress_eq_iff: "IPAddress_eq a b \<longleftrightarrow> a = b"
  by (cases a; cases b) (auto simp: IPAddress_eq_def)

lemma IPAddress_less_family: "\<not> IPAddress_isV6 a \<Longrightarrow> IPAddress_isV6 b \<Longrightarrow> IPAddress_less a b"
  by (simp add: IPAddress_less_def)

lemma IPAddress_less_same_family:
  "IPAddress_isV6 a = IPAddress_isV6 b \<Longrightarrow>
     IPAddress_less a b = ((store a, store b) \<in> lexord {(x, y). x < y})"
  by (simp add: IPAddress_less_def lexicographical_compare_lexord)

lemma IPAddress_less_irrefl: "\<not> IPAddress_less a a"
  by (simp add: IPAddress_less_def lexicographical_compare_irrefl)

lemma IPAddress_less_trans:
  "IPAddress_less a b \<Longrightarrow> IPAddress_less b c \<Longrightarrow> IPAddress_less a c"
  unfolding IPAddress_less_def
  by (cases "IPAddress_isV6 a"; cases "IPAddress_isV6 b"; cases "IPAddress_isV6 c")
     (auto intro: lexicographical_compare_trans)

lemma IPAddress_less_total: "IPAddress_less a b \<or> IPAddress_eq a b \<or> IPAddress_less b a"
  using lexicographical_compare_total [of "store a" "store b"]
  unfolding IPAddress_less_def IPAddress_eq_def IPAddress_isV6_def
  by (cases "isV6addr a"; cases "isV6addr b") auto

lemma IPAddress_less_asym: "IPAddress_less a b \<Longrightarrow> \<not> IPAddress_less b a"
  unfolding IPAddress_less_def
  by (cases "IPAddress_isV6 a"; cases "IPAddress_isV6 b")
     (auto dest: lexicographical_compare_asym)

text \<open>
  Claim C6. The order of IPAddress is family first: every IPv4 address is less than every
  IPv6 address. Within a family \<open>a < b\<close> holds exactly when the stored bytes of \<open>a\<close> are
  lexicographically less than those of \<open>b\<close> (the order \<open>lexord\<close> over the unsigned order of
  bytes). \<^verbatim>\<open>operator==\<close> compares the flag and the bytes, which is equality of the values.
  With it \<^verbatim>\<open>operator<\<close> is a strict total order: irreflexive, transitive, and of \<open>a < b\<close>,
  \<open>a == b\<close>, \<open>b < a\<close> exactly one holds.
\<close>

theorem IPAddress_order:
  "(\<not> IPAddress_isV6 a \<and> IPAddress_isV6 b \<longrightarrow> IPAddress_less a b) \<and>
   (IPAddress_isV6 a = IPAddress_isV6 b \<longrightarrow>
      IPAddress_less a b = ((store a, store b) \<in> lexord {(x, y). x < y})) \<and>
   IPAddress_eq a b = (isV6addr a = isV6addr b \<and> store a = store b) \<and>
   IPAddress_eq a b = (a = b) \<and>
   \<not> IPAddress_less a a \<and>
   (IPAddress_less a b \<and> IPAddress_less b c \<longrightarrow> IPAddress_less a c) \<and>
   (IPAddress_less a b \<or> IPAddress_eq a b \<or> IPAddress_less b a) \<and>
   \<not> (IPAddress_less a b \<and> IPAddress_eq a b) \<and>
   \<not> (IPAddress_less a b \<and> IPAddress_less b a)"
proof -
  have "\<not> (IPAddress_less a b \<and> IPAddress_eq a b)"
    using IPAddress_less_irrefl by (auto simp: IPAddress_eq_iff)
  then show ?thesis
    using IPAddress_less_family [of a b] IPAddress_less_same_family [of a b]
      IPAddress_eq_iff [of a b] IPAddress_less_irrefl [of a] IPAddress_less_trans [of a b c]
      IPAddress_less_total [of a b] IPAddress_less_asym [of a b]
    by (simp add: IPAddress_eq_def) blast
qed

theorem IPAddress_order_witness:
  "IPAddress_less (IPAddress_v4 1) (IPAddress_v6 (replicate 16 0)) \<and>
   IPAddress_less (IPAddress_v6 (replicate 16 0)) (IPAddress_v6 (replicate 15 0 @ [1])) \<and>
   IPAddress_less (IPAddress_v4 1) (IPAddress_v6 (replicate 15 0 @ [1])) \<and>
   (store (IPAddress_v6 (replicate 16 0)), store (IPAddress_v6 (replicate 15 0 @ [1])))
      \<in> lexord {(x, y). x < y} \<and>
   \<not> IPAddress_less (IPAddress_v6 (replicate 15 0 @ [1])) (IPAddress_v6 (replicate 16 0))"
proof -
  let ?a = "IPAddress_v4 1" and ?b = "IPAddress_v6 (replicate 16 0)"
    and ?c = "IPAddress_v6 (replicate 15 0 @ [1])"
  have fam: "\<not> IPAddress_isV6 ?a \<and> IPAddress_isV6 ?b" "IPAddress_isV6 ?b = IPAddress_isV6 ?c"
    by (simp_all add: IPAddress_isV6_def IPAddress_v4_def IPAddress_v6_def)
  have bc: "IPAddress_less ?b ?c"
    by (simp add: IPAddress_less_def IPAddress_isV6_def IPAddress_v6_def eval_nat_numeral)
  from fam bc IPAddress_order [of ?a ?b ?c] IPAddress_order [of ?b ?c ?c]
  show ?thesis by blast
qed

section \<open>IPAddress::parse\<close>

text \<open>
  Claim C9. \<^verbatim>\<open>IPAddress::parse\<close> never raises, whatever the text and whatever the library's
  \<^verbatim>\<open>from_string\<close> does: it returns the absent result when \<^verbatim>\<open>from_string\<close> throws, and
  otherwise the address present, with the family \<^verbatim>\<open>from_string\<close> detected and its number
  or bytes.
\<close>

theorem IPAddress_parse_never_raises:
  "\<exists>r. IPAddress_parse from_string str = Inr r \<and>
     (case r of
        None \<Rightarrow> \<exists>e. from_string str = Inl e
      | Some a \<Rightarrow>
          \<exists>addr. from_string str = Inr addr \<and> IPAddress_isV6 a = is_v6 addr \<and>
            (case addr of
               address_v4 ulong \<Rightarrow> a = IPAddress_v4 ulong \<and> toV4 a = ulong
             | address_v6 bytes \<Rightarrow> a = IPAddress_v6 bytes \<and> store a = bytes))"
proof (cases "from_string str")
  case (Inl e)
  then show ?thesis
    by (simp add: IPAddress_parse_def IPAddress_parse_try_def)
next
  case (Inr addr)
  then show ?thesis
    by (cases addr)
       (simp_all add: IPAddress_parse_def IPAddress_parse_try_def is_v6_def IPAddress_isV6_def
          toV4_IPAddress_v4, simp_all add: IPAddress_v4_def IPAddress_v6_def)
qed

theorem IPAddress_parse_never_raises_witness:
  "IPAddress_parse sample_from_string ''::1'' = Inr (Some (IPAddress_v6 loopback_bytes)) \<and>
   IPAddress_parse sample_from_string ''127.0.0.1'' = Inr (Some (IPAddress_v4 0x7f000001)) \<and>
   IPAddress_parse sample_from_string ''1.2.3'' = Inr None"
  using IPAddress_parse_never_raises [of sample_from_string "''::1''"]
    IPAddress_parse_never_raises [of sample_from_string "''127.0.0.1''"]
    IPAddress_parse_never_raises [of sample_from_string "''1.2.3''"]
  by (auto simp: sample_from_string_def split: option.splits)

section \<open>connect\<close>

lemma pickEndpoint_in_range:
  assumes "randomInt g 0 (int (length addresses)) = (Inr i, g')" and "0 \<le> i"
    and "i < int (length addresses)"
  shows "pickEndpoint randomInt useTLS addresses g =
     (Some (Inr (if useTLS then (addresses ! nat i)\<lparr>flags := FLAG_TLS\<rparr> else addresses ! nat i)), g')"
  using assms by (simp add: pickEndpoint_def vector_at_def)

lemma isTLS_FLAG_TLS: "isTLS (a\<lparr>flags := FLAG_TLS\<rparr>)"
  by (simp add: isTLS_def FLAG_TLS_def)

text \<open>
  Claim C4. When the resolver returns a list and the random source, asked for a number
  from 0 up to the size of the list (\<^verbatim>\<open>randomInt(min, maxPlusOne)\<close>), draws an index \<open>i\<close>
  of the list, then \<^verbatim>\<open>connect\<close> selects exactly the candidate at \<open>i\<close>, an element of the
  list, and opens the connection to it with the host name. With \<^verbatim>\<open>useTLS\<close> the flags of
  the selected candidate are overwritten with exactly the TLS bit, so it reports
  \<^verbatim>\<open>isTLS()\<close> whatever its flags were; without \<^verbatim>\<open>useTLS\<close> the candidate is passed on
  unchanged: its flags are those the resolver gave it, and \<^verbatim>\<open>connect\<close> sets no TLS bit.
\<close>

theorem connect_selects_one_candidate:
  assumes "resolveTCPEndpoint host service = Inr addresses"
    and "randomInt g 0 (int (length addresses)) = (Inr i, g')"
    and "0 \<le> i" and "i < int (length addresses)"
  shows "\<exists>cand picked.
     nat i < length addresses \<and> cand = addresses ! nat i \<and> cand \<in> set addresses \<and>
     pickEndpoint randomInt useTLS addresses g = (Some (Inr picked), g') \<and>
     connect randomInt resolveTCPEndpoint connect_addr host service useTLS g
       = (Some (connect_addr picked host), g') \<and>
     ip picked = ip cand \<and> port picked = port cand \<and>
     (if useTLS then flags picked = FLAG_TLS \<and> isTLS picked
      else picked = cand \<and> flags picked = flags cand \<and> isTLS picked = isTLS cand)"
proof -
  let ?cand = "addresses ! nat i"
  let ?picked = "if useTLS then ?cand\<lparr>flags := FLAG_TLS\<rparr> else ?cand"
  have len: "nat i < length addresses"
    using assms(3,4) by linarith
  have pick: "pickEndpoint randomInt useTLS addresses g = (Some (Inr ?picked), g')"
    using assms(2-4) by (rule pickEndpoint_in_range)
  have conn: "connect randomInt resolveTCPEndpoint connect_addr host service useTLS g
      = (Some (connect_addr ?picked host), g')"
    by (simp add: connect_def assms(1) pick)
  have rest: "ip ?picked = ip ?cand \<and> port ?picked = port ?cand \<and>
     (if useTLS then flags ?picked = FLAG_TLS \<and> isTLS ?picked
      else ?picked = ?cand \<and> flags ?picked = flags ?cand \<and> isTLS ?picked = isTLS ?cand)"
    by (simp add: isTLS_FLAG_TLS)
  from len have "?cand \<in> set addresses" by simp
  with len pick conn rest show ?thesis by blast
qed

theorem connect_selects_one_candidate_witness:
  "pickEndpoint cycling_randomInt True sample_candidates 1
     = (Some (Inr \<lparr>ip = IPAddress_v4 0x0A000002, port = 80, flags = FLAG_TLS\<rparr>), 2) \<and>
   connect cycling_randomInt sample_resolver sample_connect_addr ''example'' ''80'' True 1
     = (Some (Inr (\<lparr>ip = IPAddress_v4 0x0A000002, port = 80, flags = FLAG_TLS\<rparr>, ''example'')), 2) \<and>
   pickEndpoint cycling_randomInt False sample_candidates 1
     = (Some (Inr \<lparr>ip = IPAddress_v4 0x0A000002, port = 80, flags = FLAG_PRIVATE\<rparr>), 2)"
proof -
  have draw: "cycling_randomInt 1 0 (int (length sample_candidates)) = (Inr 1, 2)"
    by (simp add: cycling_randomInt_def sample_candidates_def)
  have rng: "(0::int) \<le> 1" "(1::int) < int (length sample_candidates)"
    by (simp_all add: sample_candidates_def)
  have res: "sample_resolver ''example'' ''80'' = Inr sample_candidates"
    by (simp add: sample_resolver_def)
  have nth: "sample_candidates ! nat 1 = \<lparr>ip = IPAddress_v4 0x0A000002, port = 80, flags = FLAG_PRIVATE\<rparr>"
    by (simp add: sample_candidates_def)
  have t: "\<exists>cand picked.
     nat 1 < length sample_candidates \<and> cand = sample_candidates ! nat 1 \<and> cand \<in> set sample_candidates \<and>
     pickEndpoint cycling_randomInt True sample_candidates 1 = (Some (Inr picked), 2) \<and>
     connect cycling_randomInt sample_resolver sample_connect_addr ''example'' ''80'' True 1
       = (Some (sample_connect_addr picked ''example''), 2) \<and>
     ip picked = ip cand \<and> port picked = port cand \<and>
     (if True then flags picked = FLAG_TLS \<and> isTLS picked
      else picked = cand \<and> flags picked = flags cand \<and> isTLS picked = isTLS cand)"
    using res draw rng by (rule connect_selects_one_candidate)
  have f: "\<exists>cand picked.
     nat 1 < length sample_candidates \<and> cand = sample_candidates ! nat 1 \<and> cand \<in> set sample_candidates \<and>
     pickEndpoint cycling_randomInt False sample_candidates 1 = (Some (Inr picked), 2) \<and>
     connect cycling_randomInt sample_resolver sample_connect_addr ''example'' ''80'' False 1
       = (Some (sample_connect_addr picked ''example''), 2) \<and>
     ip picked = ip cand \<and> port picked = port cand \<and>
     (if False then flags picked = FLAG_TLS \<and> isTLS picked
      else picked = cand \<and> flags picked = flags cand \<and> isTLS picked = isTLS cand)"
    using res draw rng by (rule connect_selects_one_candidate)
  from t f show ?thesis
    unfolding nth by (auto simp: sample_connect_addr_def)
qed

lemma connect_empty_candidates:
  "resolveTCPEndpoint host service = Inr [] \<Longrightarrow>
     connect randomInt resolveTCPEndpoint connect_addr host service useTLS g =
       (case randomInt g 0 0 of (Inl e, g') \<Rightarrow> (Some (Inl e), g') | (Inr i, g') \<Rightarrow> (None, g'))"
  by (auto simp: connect_def pickEndpoint_def vector_at_def split: prod.splits sum.splits)

text \<open>
  Claim C5, as the code has it. When the resolution fails, \<^verbatim>\<open>connect\<close> fails with the
  resolver's error, unchanged, and the selection does not run: whatever the random source
  and the connection opener are, neither is called, and the random source is in the state
  it was in. \<^verbatim>\<open>connect\<close> itself does not test the list for emptiness (lemma
  \<open>connect_empty_candidates\<close>): that a lookup without candidates is a failure is left to
  the resolver.
\<close>

theorem connect_resolution_failure:
  "resolveTCPEndpoint host service = Inl e \<Longrightarrow>
     connect randomInt resolveTCPEndpoint connect_addr host service useTLS g = (Some (Inl e), g)"
  by (simp add: connect_def)

theorem connect_resolution_failure_witness:
  "connect cycling_randomInt failing_resolver sample_connect_addr ''example'' ''80'' True 1
     = (Some (Inl boost_system_error), 1)"
proof -
  have "failing_resolver ''example'' ''80'' = Inl boost_system_error"
    by (simp add: failing_resolver_def)
  then show ?thesis
    by (rule connect_resolution_failure)
qed

text \<open>
  The claim as stated fails on a resolver that delivers the empty list as its value: the
  selection runs. With a random source that answers \<^verbatim>\<open>randomInt(0, 0)\<close> the source is
  asked (its state moves from 0 to 1), the read of \<^verbatim>\<open>addresses[0]\<close> lies outside the
  vector and no failure of the resolver is passed on; with a random source that refuses
  the empty range the caller gets the error of that refusal, raised in the selection.
\<close>

theorem connect_empty_candidates_selects:
  "connect cycling_randomInt empty_resolver sample_connect_addr ''example'' ''80'' False 0
     = (None, 1) \<and>
   pickEndpoint cycling_randomInt False [] 0 = (None, 1) \<and>
   connect asserting_randomInt empty_resolver sample_connect_addr ''example'' ''80'' False 0
     = (Some (Inl internal_error), 0)"
  by (simp add: connect_def pickEndpoint_def vector_at_def cycling_randomInt_def
      asserting_randomInt_def empty_resolver_def)

section \<open>C strings and decimal numbers\<close>

lemma strcmp_eq_0: "strcmp a b = 0 \<longleftrightarrow> a = b"
  by (induction a b rule: strcmp.induct) auto

lemma c_str_no_NUL: "NUL \<notin> set s \<Longrightarrow> c_str s = s"
  by (auto simp: c_str_def)

lemma c_str_length4:
  assumes "length t = 4"
  shows "c_str t = '':tls'' \<longleftrightarrow> t = '':tls''"
proof
  assume "t = '':tls''"
  then show "c_str t = '':tls''" by (simp add: c_str_def NUL_def)
next
  assume a: "c_str t = '':tls''"
  have "length (c_str t) = length t"
    using assms a by simp
  then have "c_str t = t"
    unfolding c_str_def by (metis takeWhile_eq_take take_all order_refl)
  with a show "t = '':tls''" by simp
qed

lemma has_tls_suffix_iff:
  "has_tls_suffix s \<longleftrightarrow> 4 < length s \<and> drop (length s - 4) s = '':tls''"
  by (auto simp: has_tls_suffix_def strcmp_eq_0 c_str_length4)

lemma has_tls_suffix_append: "has_tls_suffix (s @ '':tls'') \<longleftrightarrow> s \<noteq> []"
  by (auto simp: has_tls_suffix_iff)

lemma has_tls_suffix_suffix: "has_tls_suffix s \<longleftrightarrow> 4 < length s \<and> suffix '':tls'' s"
proof -
  have "suffix '':tls'' s \<longleftrightarrow> 4 \<le> length s \<and> drop (length s - 4) s = '':tls''"
    by (auto simp: suffix_def) (metis append_take_drop_id)
  then show ?thesis
    by (auto simp: has_tls_suffix_iff)
qed

lemma digit_char_cases:
  assumes "d < 10"
  shows "isdigit (digit_char d)" and "digit_value (digit_char d) = d"
    and "\<not> isspace (digit_char d)" and "digit_char d \<noteq> CHR ''-''" and "digit_char d \<noteq> CHR ''+''"
    and "digit_char d \<noteq> NUL" and "digit_char d \<noteq> CHR ''[''" and "digit_char d \<noteq> CHR ''s''"
proof -
  from assms have "d \<in> {0, 1, 2, 3, 4, 5, 6, 7, 8, 9}"
    by auto
  then consider "d = 0" | "d = 1" | "d = 2" | "d = 3" | "d = 4" | "d = 5" | "d = 6" | "d = 7"
    | "d = 8" | "d = 9"
    by blast
  then have "isdigit (digit_char d) \<and> digit_value (digit_char d) = d \<and> \<not> isspace (digit_char d)
     \<and> digit_char d \<noteq> CHR ''-'' \<and> digit_char d \<noteq> CHR ''+'' \<and> digit_char d \<noteq> NUL
     \<and> digit_char d \<noteq> CHR ''['' \<and> digit_char d \<noteq> CHR ''s''"
    by cases (simp_all add: digit_char_def isdigit_def digit_value_def isspace_def NUL_def)
  then show "isdigit (digit_char d)" and "digit_value (digit_char d) = d"
    and "\<not> isspace (digit_char d)" and "digit_char d \<noteq> CHR ''-''" and "digit_char d \<noteq> CHR ''+''"
    and "digit_char d \<noteq> NUL" and "digit_char d \<noteq> CHR ''[''" and "digit_char d \<noteq> CHR ''s''"
    by simp_all
qed

declare dec.simps [simp del]

lemma dec_nonempty: "dec n \<noteq> []"
  by (subst dec.simps) simp

lemma dec_digits: "c \<in> set (dec n) \<Longrightarrow> isdigit c"
proof (induction n arbitrary: c rule: dec.induct)
  case (1 n)
  show ?case
  proof (cases "n < 10")
    case True
    with "1.prems" show ?thesis
      by (subst (asm) dec.simps) (simp add: digit_char_cases)
  next
    case False
    with "1.prems" "1.IH" show ?thesis
      by (subst (asm) dec.simps) (auto simp: digit_char_cases)
  qed
qed

lemma digits_value_snoc: "digits_value (ds @ [c]) = 10 * digits_value ds + digit_value c"
  by (simp add: digits_value_def)

lemma digits_value_dec: "digits_value (dec n) = n"
proof (induction n rule: dec.induct)
  case (1 n)
  show ?case
  proof (cases "n < 10")
    case True
    then show ?thesis
      by (subst dec.simps) (simp add: digits_value_def digit_char_cases)
  next
    case False
    with "1.IH" show ?thesis
      by (subst dec.simps) (simp add: digits_value_snoc digit_char_cases)
  qed
qed

lemma scan_int_shape:
  assumes ws: "\<forall>c\<in>set ws. isspace c"
    and sg: "sg = [] \<or> sg = ''-'' \<or> sg = ''+''"
    and ds: "ds \<noteq> []" "\<forall>c\<in>set ds. isdigit c"
    and r: "r = [] \<or> \<not> isdigit (hd r)"
  shows "scan_int (ws @ sg @ ds @ r)
     = Some (if sg = ''-'' then - int (digits_value ds) else int (digits_value ds), r)"
proof -
  obtain d ds' where dd: "ds = d # ds'" using ds(1) by (cases ds) auto
  have d: "isdigit d" using ds(2) dd by simp
  then have dns: "\<not> isspace d" and dsg: "d \<noteq> CHR ''-''" "d \<noteq> CHR ''+''"
    by (auto simp: isdigit_def isspace_def)
  have sgns: "\<forall>c\<in>set sg. \<not> isspace c \<and> \<not> isdigit c"
    using sg by (auto simp: isspace_def isdigit_def)
  have "sg @ ds @ r \<noteq> []" using ds(1) by simp
  moreover have "\<not> isspace (hd (sg @ ds @ r))"
    using sg dd dns by (auto simp: isspace_def)
  ultimately have t: "dropWhile isspace (ws @ sg @ ds @ r) = sg @ ds @ r"
    using ws by (cases "sg @ ds @ r") (auto simp: dropWhile_append)
  have tw: "takeWhile isdigit (ds @ r) = ds"
    using ds(2) r by (cases r) (auto simp: takeWhile_append)
  have dw: "dropWhile isdigit (ds @ r) = r"
    using ds(2) r by (cases r) (auto simp: dropWhile_append)
  from sg show ?thesis
  proof (elim disjE)
    assume "sg = []"
    then show ?thesis
      unfolding scan_int_def t using tw dw dd dsg ds(1) by (simp add: Let_def)
  next
    assume "sg = ''-''"
    then show ?thesis
      unfolding scan_int_def t using tw dw ds(1) by (simp add: Let_def)
  next
    assume "sg = ''+''"
    then show ?thesis
      unfolding scan_int_def t using tw dw ds(1) by (simp add: Let_def)
  qed
qed

lemma scan_int_full_decomp:
  assumes "scan_int x = Some (v, [])"
  shows "\<exists>ws sg ds. x = ws @ sg @ ds \<and> (\<forall>c\<in>set ws. isspace c) \<and>
     (sg = [] \<or> sg = ''-'' \<or> sg = ''+'') \<and> ds \<noteq> [] \<and> (\<forall>c\<in>set ds. isdigit c) \<and>
     v = (if sg = ''-'' then - int (digits_value ds) else int (digits_value ds))"
proof -
  define ws where "ws = takeWhile isspace x"
  define t where "t = dropWhile isspace x"
  define sg where "sg = (if t \<noteq> [] \<and> (hd t = CHR ''-'' \<or> hd t = CHR ''+'') then [hd t] else [])"
  define u where "u = (if t \<noteq> [] \<and> (hd t = CHR ''-'' \<or> hd t = CHR ''+'') then tl t else t)"
  have x: "x = ws @ t" by (simp add: ws_def t_def)
  have tu: "t = sg @ u" by (auto simp: sg_def u_def)
  have wsp: "\<forall>c\<in>set ws. isspace c"
    unfolding ws_def by (auto dest: set_takeWhileD)
  have sgp: "sg = [] \<or> sg = ''-'' \<or> sg = ''+''" by (auto simp: sg_def)
  have neg: "(t \<noteq> [] \<and> hd t = CHR ''-'') \<longleftrightarrow> sg = ''-''"
    by (auto simp: sg_def)
  from assms have tne: "takeWhile isdigit u \<noteq> []"
    and dw: "dropWhile isdigit u = []"
    and v: "v = (if sg = ''-'' then - int (digits_value (takeWhile isdigit u))
                 else int (digits_value (takeWhile isdigit u)))"
    unfolding scan_int_def Let_def t_def [symmetric] u_def [symmetric] neg
    by (auto split: if_splits)
  from dw have all: "\<forall>c\<in>set u. isdigit c" by (simp add: dropWhile_eq_Nil_conv)
  then have tw: "takeWhile isdigit u = u" by (simp add: takeWhile_eq_all_conv)
  with tne have une: "u \<noteq> []" by auto
  show ?thesis
    using x tu wsp sgp une all v unfolding tw by blast
qed

lemma scan_int_append:
  assumes "scan_int x = Some (v, [])" and "r = [] \<or> \<not> isdigit (hd r)"
  shows "scan_int (x @ r) = Some (v, r)"
proof -
  from scan_int_full_decomp [OF assms(1)] obtain ws sg ds where
    x: "x = ws @ sg @ ds" and p: "\<forall>c\<in>set ws. isspace c" "sg = [] \<or> sg = ''-'' \<or> sg = ''+''"
      "ds \<noteq> []" "\<forall>c\<in>set ds. isdigit c"
    and v: "v = (if sg = ''-'' then - int (digits_value ds) else int (digits_value ds))"
    by blast
  show ?thesis
    using scan_int_shape [OF p assms(2)] x v by simp
qed

lemma isspace_chars:
  assumes "isspace c"
  shows "c \<noteq> NUL" and "c \<noteq> CHR ''[''" and "\<not> isdigit c"
  using assms by (auto simp: isspace_def isdigit_def NUL_def)

lemma isdigit_chars:
  assumes "isdigit c"
  shows "c \<noteq> NUL" and "c \<noteq> CHR ''[''" and "\<not> isspace c" and "c \<noteq> CHR ''-''"
    and "c \<noteq> CHR ''+''" and "c \<noteq> CHR ''s''"
  using assms by (auto simp: isspace_def isdigit_def NUL_def)

lemma sign_chars:
  assumes "sg = [] \<or> sg = ''-'' \<or> sg = ''+''" and "c \<in> set sg"
  shows "c \<noteq> NUL" and "c \<noteq> CHR ''[''" and "\<not> isspace c"
  using assms by (auto simp: isspace_def NUL_def)

lemma scan_int_full_props:
  assumes "scan_int x = Some (v, [])"
  shows "x \<noteq> []" and "NUL \<notin> set x" and "hd x \<noteq> CHR ''[''" and "isdigit (last x)"
    and "dropWhile isspace x \<noteq> []"
proof -
  from scan_int_full_decomp [OF assms] obtain ws sg ds where
    x: "x = ws @ sg @ ds" and ws: "\<forall>c\<in>set ws. isspace c"
    and sg: "sg = [] \<or> sg = ''-'' \<or> sg = ''+''"
    and ds: "ds \<noteq> []" "\<forall>c\<in>set ds. isdigit c"
    by blast
  have each: "c \<noteq> NUL \<and> c \<noteq> CHR ''[''" if "c \<in> set x" for c
  proof -
    from that x consider "c \<in> set ws" | "c \<in> set sg" | "c \<in> set ds" by auto
    then show ?thesis
    proof cases
      case 1 then show ?thesis using ws isspace_chars by blast
    next
      case 2 then show ?thesis using sign_chars [OF sg] by blast
    next
      case 3 then show ?thesis using ds(2) isdigit_chars by blast
    qed
  qed
  show ne: "x \<noteq> []" by (simp add: x ds(1))
  show "NUL \<notin> set x" using each by blast
  show "isdigit (last x)" by (simp add: x ds)
  have "hd x \<in> set x" using ne by simp
  then show "hd x \<noteq> CHR ''[''" using each by blast
  have "last ds \<in> set x" by (simp add: x ds(1))
  moreover have "\<not> isspace (last ds)" using ds isdigit_chars(3) by simp
  ultimately show "dropWhile isspace x \<noteq> []"
    by (auto simp: dropWhile_eq_Nil_conv)
qed

lemma scan_int_format_d: "scan_int (format_d i) = Some (i, [])"
proof (cases "i < 0")
  case True
  have "scan_int ([] @ ''-'' @ dec (nat (- i)) @ []) =
      Some (if ''-'' = ''-'' then - int (digits_value (dec (nat (- i)))) else int (digits_value (dec (nat (- i)))), [])"
    by (rule scan_int_shape) (auto simp: dec_nonempty dec_digits)
  with True show ?thesis
    by (simp add: format_d_def digits_value_dec)
next
  case False
  have "scan_int ([] @ [] @ dec (nat i) @ []) =
      Some (if [] = ''-'' then - int (digits_value (dec (nat i))) else int (digits_value (dec (nat i))), [])"
    by (rule scan_int_shape) (auto simp: dec_nonempty dec_digits)
  with False show ?thesis
    by (simp add: format_d_def digits_value_dec)
qed

section \<open>Scanning an endpoint with \<^verbatim>\<open>sscanf\<close>\<close>

lemma vsscanf_Conv_d_Ordinary:
  assumes "scan_int x = Some (v, [])" and "\<not> isdigit c"
  shows "vsscanf (Conv_d # Ordinary c # fmt) (x @ c # r) k vals n
     = vsscanf fmt r (Suc (k + length x)) (vals @ [word_of_int (strtol_value v)]) n"
proof -
  have ne: "dropWhile isspace (x @ c # r) \<noteq> []"
    using scan_int_full_props(5) [OF assms(1)] by (auto simp: dropWhile_eq_Nil_conv)
  have sc: "scan_int (x @ c # r) = Some (v, c # r)"
    using assms by (intro scan_int_append) simp_all
  show ?thesis
    by (simp only: vsscanf.simps ne sc if_False option.case prod.case list.case if_True
        length_append add_diff_cancel_right' refl)
qed

lemma vsscanf_Conv_d_Conv_n:
  assumes "scan_int x = Some (v, [])"
  shows "vsscanf [Conv_d, Conv_n] x k vals n
     = (int (length (vals @ [word_of_int (strtol_value v)])), vals @ [word_of_int (strtol_value v)], Some (k + length x))"
proof -
  have ne: "dropWhile isspace x \<noteq> []"
    by (rule scan_int_full_props(5) [OF assms])
  show ?thesis
    by (simp only: vsscanf.simps ne assms if_False option.case prod.case list.size diff_zero)
qed

lemma sscanf_address:
  assumes "scan_int fa = Some (a, [])" "scan_int fb = Some (b, [])" "scan_int fc = Some (c, [])"
    "scan_int fd = Some (d, [])" "scan_int fp = Some (p, [])"
  shows "sscanf (fa @ ''.'' @ fb @ ''.'' @ fc @ ''.'' @ fd @ '':'' @ fp) address_format
     = (5, [word_of_int (strtol_value a), word_of_int (strtol_value b), word_of_int (strtol_value c),
          word_of_int (strtol_value d), word_of_int (strtol_value p)],
        Some (length (fa @ ''.'' @ fb @ ''.'' @ fc @ ''.'' @ fd @ '':'' @ fp)))"
proof -
  have nd: "\<not> isdigit (CHR ''.'')" "\<not> isdigit (CHR '':'')"
    by (simp_all add: isdigit_def)
  have "sscanf (fa @ CHR ''.'' # fb @ CHR ''.'' # fc @ CHR ''.'' # fd @ CHR '':'' # fp) address_format
     = (5, [word_of_int (strtol_value a), word_of_int (strtol_value b), word_of_int (strtol_value c),
          word_of_int (strtol_value d), word_of_int (strtol_value p)],
        Some (Suc (Suc (Suc (Suc (0 + length fa) + length fb) + length fc) + length fd) + length fp))"
    unfolding sscanf_def address_format_def
    by (simp only: vsscanf_Conv_d_Ordinary [OF assms(1) nd(1)] vsscanf_Conv_d_Ordinary [OF assms(2) nd(1)]
        vsscanf_Conv_d_Ordinary [OF assms(3) nd(1)] vsscanf_Conv_d_Ordinary [OF assms(4) nd(2)]
        vsscanf_Conv_d_Conv_n [OF assms(5)] append_Nil append_Cons) simp
  then show ?thesis by simp
qed

section \<open>NetworkAddress::parse: the dotted branch\<close>

lemma ucast_word_of_int_32_16: "(ucast (word_of_int p :: 32 word) :: 16 word) = word_of_int p"
  by (rule bit_word_eqI) (auto simp: bit_simps)

lemma octets_word_of_int:
  "push_bit 24 (word_of_int a :: 32 word) + push_bit 16 (word_of_int b) + push_bit 8 (word_of_int c)
     + word_of_int d = word_of_int (a * 2 ^ 24 + b * 2 ^ 16 + c * 2 ^ 8 + d)"
  by (simp add: push_bit_eq_mult)

lemma has_tls_suffix_last_digit:
  assumes "s \<noteq> []" and "isdigit (last s)"
  shows "\<not> has_tls_suffix s"
proof
  assume "has_tls_suffix s"
  then have "suffix '':tls'' s" by (simp add: has_tls_suffix_suffix)
  then obtain p where "s = p @ '':tls''" by (auto simp: suffix_def)
  then have "last s = CHR ''s''" by simp
  with assms(2) show False using isdigit_chars(6) by blast
qed

lemma parse_dotted_strtol:
  assumes "scan_int fa = Some (a, [])" "scan_int fb = Some (b, [])" "scan_int fc = Some (c, [])"
    "scan_int fd = Some (d, [])" "scan_int fp = Some (p, [])"
  shows "NetworkAddress_parse from_string
           (fa @ ''.'' @ fb @ ''.'' @ fc @ ''.'' @ fd @ '':'' @ fp @ (if tls then '':tls'' else ''''))
     = Inr (NetworkAddress_ctor (IPAddress_v4
              (word_of_int (strtol_value a * 2 ^ 24 + strtol_value b * 2 ^ 16 + strtol_value c * 2 ^ 8
                 + strtol_value d)))
              (word_of_int (strtol_value p)) True tls)"
proof -
  define f where "f = fa @ ''.'' @ fb @ ''.'' @ fc @ ''.'' @ fd @ '':'' @ fp"
  note props = scan_int_full_props
  have fne: "f \<noteq> []" by (simp add: f_def)
  have lastf: "isdigit (last f)"
    using props(4) [OF assms(5)] props(1) [OF assms(5)] by (simp add: f_def)
  have notls: "\<not> has_tls_suffix f"
    using fne lastf by (rule has_tls_suffix_last_digit)
  have nonul: "NUL \<notin> set f"
    using props(2) [OF assms(1)] props(2) [OF assms(2)] props(2) [OF assms(3)]
      props(2) [OF assms(4)] props(2) [OF assms(5)]
    by (simp add: f_def NUL_def)
  have hdf: "string_at f 0 \<noteq> CHR ''[''"
  proof -
    have "hd f = hd fa" using props(1) [OF assms(1)] by (simp add: f_def)
    moreover have "f ! 0 = hd f" using fne by (simp add: hd_conv_nth)
    ultimately show ?thesis
      using props(3) [OF assms(1)] fne by (simp add: string_at_def)
  qed
  have scan: "sscanf (c_str f) address_format
     = (5, [word_of_int (strtol_value a), word_of_int (strtol_value b), word_of_int (strtol_value c),
          word_of_int (strtol_value d), word_of_int (strtol_value p)], Some (length f))"
    unfolding c_str_no_NUL [OF nonul] unfolding f_def by (rule sscanf_address [OF assms])
  have body: "NetworkAddress_parse from_string (f @ (if tls then '':tls'' else ''''))
     = Inr (NetworkAddress_ctor (IPAddress_v4
              (word_of_int (strtol_value a * 2 ^ 24 + strtol_value b * 2 ^ 16 + strtol_value c * 2 ^ 8
                 + strtol_value d)))
              (word_of_int (strtol_value p)) True tls)"
  proof (cases tls)
    case True
    have "has_tls_suffix (f @ '':tls'')" using fne by (simp add: has_tls_suffix_append)
    then show ?thesis
      using True hdf scan
      by (simp add: NetworkAddress_parse_def ucast_word_of_int_32_16 octets_word_of_int)
  next
    case False
    then show ?thesis
      using notls hdf scan
      by (simp add: NetworkAddress_parse_def ucast_word_of_int_32_16 octets_word_of_int)
  qed
  then show ?thesis by (simp add: f_def)
qed

lemma strtol_value_long: "is_long v \<Longrightarrow> strtol_value v = v"
  by (simp add: is_long_def strtol_value_def)

lemma parse_dotted:
  assumes "scan_int fa = Some (a, [])" "scan_int fb = Some (b, [])" "scan_int fc = Some (c, [])"
    "scan_int fd = Some (d, [])" "scan_int fp = Some (p, [])"
    and "is_long a" "is_long b" "is_long c" "is_long d" "is_long p"
  shows "NetworkAddress_parse from_string
           (fa @ ''.'' @ fb @ ''.'' @ fc @ ''.'' @ fd @ '':'' @ fp @ (if tls then '':tls'' else ''''))
     = Inr (NetworkAddress_ctor (IPAddress_v4 (word_of_int (a * 2 ^ 24 + b * 2 ^ 16 + c * 2 ^ 8 + d)))
              (word_of_int p) True tls)"
  using parse_dotted_strtol [OF assms(1-5), of from_string tls]
  by (simp only: strtol_value_long [OF assms(6)] strtol_value_long [OF assms(7)]
      strtol_value_long [OF assms(8)] strtol_value_long [OF assms(9)] strtol_value_long [OF assms(10)])

lemma is_long_uint: "is_long (uint (w :: 'a::len word))" if "LENGTH('a) \<le> 32"
proof -
  have "uint w < 2 ^ LENGTH('a)" by (rule uint_lt2p)
  also have "(2::int) ^ LENGTH('a) \<le> 2 ^ 32"
    using that by (intro power_increasing) simp_all
  finally have "uint w < 4294967296" by simp
  moreover have "0 \<le> uint w" by simp
  ultimately have "- 9223372036854775808 \<le> uint w \<and> uint w \<le> 9223372036854775807" by linarith
  then show ?thesis by (simp add: is_long_def)
qed

lemma scan_int_literals:
  "scan_int ''300'' = Some (300, [])" "scan_int ''1'' = Some (1, [])" "scan_int ''80'' = Some (80, [])"
  "scan_int ''-1'' = Some (- 1, [])" "scan_int ''2'' = Some (2, [])" "scan_int ''3'' = Some (3, [])"
  "scan_int ''4'' = Some (4, [])" "scan_int ''0'' = Some (0, [])"
  "scan_int ''65536'' = Some (65536, [])"
  "scan_int ''4294967297'' = Some (4294967297, [])"
  "scan_int ''9223372036854775808'' = Some (9223372036854775808, [])"
  by (simp_all add: scan_int_def isspace_def isdigit_def digits_value_def digit_value_def)

lemma uint_word_of_int_32: "uint (word_of_int k :: 32 word) = k mod 2 ^ 32"
  by (simp add: uint_word_of_int take_bit_eq_mod)

lemma uint_word_of_int_16: "uint (word_of_int k :: 16 word) = k mod 2 ^ 16"
  by (simp add: uint_word_of_int take_bit_eq_mod)

lemma NetworkAddress_ctor_sel:
  "ip (NetworkAddress_ctor addr prt True tls) = addr"
  "port (NetworkAddress_ctor addr prt True tls) = prt"
  "flags (NetworkAddress_ctor addr prt True tls) = (if tls then FLAG_TLS else 0)"
  "isTLS (NetworkAddress_ctor addr prt True tls) = tls"
  "isV6 (NetworkAddress_ctor addr prt True tls) = isV6addr addr"
  by (simp_all add: NetworkAddress_ctor_def isTLS_def isV6_def IPAddress_isV6_def FLAG_TLS_def)

lemma parse_dotted_plain:
  assumes "scan_int fa = Some (a, [])" "scan_int fb = Some (b, [])" "scan_int fc = Some (c, [])"
    "scan_int fd = Some (d, [])" "scan_int fp = Some (p, [])"
  shows "NetworkAddress_parse from_string (fa @ ''.'' @ fb @ ''.'' @ fc @ ''.'' @ fd @ '':'' @ fp)
     = Inr (NetworkAddress_ctor
              (IPAddress_v4
                (word_of_int (strtol_value a * 2 ^ 24 + strtol_value b * 2 ^ 16 + strtol_value c * 2 ^ 8
                   + strtol_value d)))
              (word_of_int (strtol_value p)) True False)"
  using parse_dotted_strtol [OF assms, of from_string False] by simp

text \<open>
  Claim C10, as the code has it. The dotted branch does not check the range of an octet.
  Take any five field texts that \<^verbatim>\<open>%d\<close> scans completely (white space, a sign, decimal
  digits), to the numbers \<open>a\<close>, \<open>b\<close>, \<open>c\<close>, \<open>d\<close>, \<open>p\<close>. Then \<^verbatim>\<open>parse\<close> accepts
  \<^verbatim>\<open>a.b.c.d:p\<close>: the result is an IPv4 address without TLS whose 32-bit number is
  \<^verbatim>\<open>(a << 24) + (b << 16) + (c << 8) + d\<close> on 32 bits, that is the sum reduced modulo
  \<open>2 ^ 32\<close>, and whose port is \<open>p\<close> reduced modulo \<open>2 ^ 16\<close>, where each field counts with
  the value \<^verbatim>\<open>strtol\<close> returns for it: the field itself when a \<^verbatim>\<open>long\<close> holds it (also
  when an \<^verbatim>\<open>int\<close> does not), and otherwise the bound of \<^verbatim>\<open>long\<close> it lies beyond. No octet
  has to lie between 0 and 255: \<^verbatim>\<open>300.1.1.1:80\<close> is accepted.
\<close>

theorem parse_dotted_octets_unchecked:
  assumes "scan_int fa = Some (a, [])" "scan_int fb = Some (b, [])" "scan_int fc = Some (c, [])"
    "scan_int fd = Some (d, [])" "scan_int fp = Some (p, [])"
  shows "\<exists>x. NetworkAddress_parse from_string (fa @ ''.'' @ fb @ ''.'' @ fc @ ''.'' @ fd @ '':'' @ fp) = Inr x \<and>
     \<not> isV6 x \<and> \<not> isTLS x \<and>
     toV4 (ip x) = push_bit 24 (word_of_int (strtol_value a)) + push_bit 16 (word_of_int (strtol_value b))
                     + push_bit 8 (word_of_int (strtol_value c)) + word_of_int (strtol_value d) \<and>
     uint (toV4 (ip x)) = (strtol_value a * 2 ^ 24 + strtol_value b * 2 ^ 16 + strtol_value c * 2 ^ 8
                             + strtol_value d) mod 2 ^ 32 \<and>
     uint (port x) = strtol_value p mod 2 ^ 16 \<and>
     (is_long a \<and> is_long b \<and> is_long c \<and> is_long d \<longrightarrow>
        uint (toV4 (ip x)) = (a * 2 ^ 24 + b * 2 ^ 16 + c * 2 ^ 8 + d) mod 2 ^ 32) \<and>
     (is_long p \<longrightarrow> uint (port x) = p mod 2 ^ 16)"
proof -
  define w :: "32 word" where
    "w = word_of_int (strtol_value a * 2 ^ 24 + strtol_value b * 2 ^ 16 + strtol_value c * 2 ^ 8
           + strtol_value d)"
  define x where "x = NetworkAddress_ctor (IPAddress_v4 w) (word_of_int (strtol_value p)) True False"
  have parse: "NetworkAddress_parse from_string (fa @ ''.'' @ fb @ ''.'' @ fc @ ''.'' @ fd @ '':'' @ fp) = Inr x"
    unfolding x_def w_def using assms by (rule parse_dotted_plain)
  have v4: "toV4 (ip x) = w"
    by (simp add: x_def NetworkAddress_ctor_sel toV4_IPAddress_v4)
  have w1: "w = push_bit 24 (word_of_int (strtol_value a)) + push_bit 16 (word_of_int (strtol_value b))
                 + push_bit 8 (word_of_int (strtol_value c)) + word_of_int (strtol_value d)"
    unfolding w_def by (simp only: octets_word_of_int)
  have w2: "uint w = (strtol_value a * 2 ^ 24 + strtol_value b * 2 ^ 16 + strtol_value c * 2 ^ 8
                        + strtol_value d) mod 2 ^ 32"
    unfolding w_def by (rule uint_word_of_int_32)
  have fam: "\<not> isV6 x" "\<not> isTLS x"
    by (simp_all add: x_def NetworkAddress_ctor_sel IPAddress_sel)
  have prt: "uint (port x) = strtol_value p mod 2 ^ 16"
    by (simp add: x_def NetworkAddress_ctor_sel uint_word_of_int_16)
  have w3: "uint w = (a * 2 ^ 24 + b * 2 ^ 16 + c * 2 ^ 8 + d) mod 2 ^ 32"
    if "is_long a \<and> is_long b \<and> is_long c \<and> is_long d"
    using that w2 by (simp only: strtol_value_long)
  have prt': "uint (port x) = p mod 2 ^ 16" if "is_long p"
    using that prt by (simp only: strtol_value_long)
  show ?thesis
  proof (intro exI [of _ x] conjI impI)
    show "NetworkAddress_parse from_string (fa @ ''.'' @ fb @ ''.'' @ fc @ ''.'' @ fd @ '':'' @ fp) = Inr x"
      by (rule parse)
    show "\<not> isV6 x" "\<not> isTLS x" by (rule fam)+
    show "toV4 (ip x) = push_bit 24 (word_of_int (strtol_value a)) + push_bit 16 (word_of_int (strtol_value b))
                     + push_bit 8 (word_of_int (strtol_value c)) + word_of_int (strtol_value d)"
      unfolding v4 by (rule w1)
    show "uint (toV4 (ip x)) = (strtol_value a * 2 ^ 24 + strtol_value b * 2 ^ 16 + strtol_value c * 2 ^ 8
                             + strtol_value d) mod 2 ^ 32"
      unfolding v4 by (rule w2)
    show "uint (port x) = strtol_value p mod 2 ^ 16" by (rule prt)
    show "uint (toV4 (ip x)) = (a * 2 ^ 24 + b * 2 ^ 16 + c * 2 ^ 8 + d) mod 2 ^ 32"
      if "is_long a \<and> is_long b \<and> is_long c \<and> is_long d"
      unfolding v4 using that by (rule w3)
    show "uint (port x) = p mod 2 ^ 16" if "is_long p"
      using that by (rule prt')
  qed
qed

theorem parse_dotted_octets_unchecked_witness:
  "(\<exists>x. NetworkAddress_parse sample_from_string ''300.1.1.1:80'' = Inr x \<and>
      uint (toV4 (ip x)) = 738263297 \<and> uint (port x) = 80) \<and>
   (\<exists>x. NetworkAddress_parse sample_from_string ''4294967297.0.0.1:80'' = Inr x \<and>
      uint (toV4 (ip x)) = 16777217 \<and> uint (port x) = 80)"
proof -
  note l = scan_int_literals
  have long: "is_long 300 \<and> is_long 1 \<and> is_long 1 \<and> is_long 1" "is_long 80"
    "is_long 4294967297 \<and> is_long 0 \<and> is_long 0 \<and> is_long 1"
    by (simp_all add: is_long_def)
  from parse_dotted_octets_unchecked [OF l(1) l(2) l(2) l(2) l(3), of sample_from_string]
       parse_dotted_octets_unchecked [OF l(10) l(8) l(8) l(2) l(3), of sample_from_string] long
  show ?thesis by auto
qed

text \<open>
  The claim as stated fails on a field that no \<^verbatim>\<open>long\<close> holds: the text
  \<^verbatim>\<open>9223372036854775808.0.0.0:80\<close> is accepted, its first field scans as \<open>2 ^ 63\<close>, for
  which the claim's sum is 0 modulo \<open>2 ^ 32\<close>, and the address stored is 255.0.0.0
  (\<^verbatim>\<open>strtol\<close> returns \<^verbatim>\<open>LONG_MAX\<close>, which is \<^verbatim>\<open>-1\<close> as an \<^verbatim>\<open>int\<close>).
\<close>

theorem parse_dotted_saturated_field:
  "NetworkAddress_parse sample_from_string ''9223372036854775808.0.0.0:80''
     = Inr \<lparr>ip = IPAddress_v4 0xFF000000, port = 80, flags = 0\<rparr> \<and>
   scan_int ''9223372036854775808'' = Some (9223372036854775808, []) \<and>
   uint (toV4 (IPAddress_v4 0xFF000000)) = 4278190080 \<and>
   (9223372036854775808 * 2 ^ 24 + 0 * 2 ^ 16 + 0 * 2 ^ 8 + 0) mod 2 ^ 32 = (0 :: int)"
proof -
  note l = scan_int_literals
  have sv: "strtol_value 9223372036854775808 = 9223372036854775807" "strtol_value 0 = 0"
    "strtol_value 80 = 80"
    by (simp_all add: strtol_value_def)
  have "IPAddress_v4 (word_of_int (9223372036854775807 * 2 ^ 24 + 0 * 2 ^ 16 + 0 * 2 ^ 8 + 0))
      = IPAddress_v4 0xFF000000"
    by (rule arg_cong [where f = IPAddress_v4]) simp
  with parse_dotted_plain [OF l(11) l(8) l(8) l(8) l(3), of sample_from_string]
  have "NetworkAddress_parse sample_from_string ''9223372036854775808.0.0.0:80''
     = Inr \<lparr>ip = IPAddress_v4 0xFF000000, port = 80, flags = 0\<rparr>"
    by (simp add: sv NetworkAddress_ctor_def)
  then show ?thesis
    by (simp add: l(11) toV4_IPAddress_v4)
qed

section \<open>NetworkAddress::parse: the bracketed branch\<close>

lemma find_first_of_bracket:
  assumes "CHR '']'' \<notin> set u"
  shows "find_first_of (CHR ''['' # u @ CHR '']'' # r) (CHR '']'') 0 = Some (Suc (length u))"
proof -
  have "takeWhile (\<lambda>x. x \<noteq> CHR '']'') (u @ CHR '']'' # r) = takeWhile (\<lambda>x. x \<noteq> CHR '']'') u"
    by (rule takeWhile_tail) simp
  also have "\<dots> = u"
    using assms by (auto simp: takeWhile_eq_all_conv)
  finally have "takeWhile (\<lambda>x. x \<noteq> CHR '']'') (CHR ''['' # u @ CHR '']'' # r) = CHR ''['' # u"
    by simp
  then show ?thesis
    by (simp add: find_first_of_def)
qed

lemma stoi_scan:
  "stoi pt = (case scan_int (c_str pt) of None \<Rightarrow> Inl std_invalid_argument
      | Some (v, rest) \<Rightarrow> if is_int v then Inr (word_of_int v) else Inl std_out_of_range)"
  by (simp add: stoi_def)

lemma parse_bracketed:
  assumes u: "CHR '']'' \<notin> set u"
    and tls: "tls \<or> \<not> has_tls_suffix (''['' @ u @ '']:'' @ pt)"
  shows "NetworkAddress_parse from_string (''['' @ u @ '']:'' @ pt @ (if tls then '':tls'' else []))
     = (case stoi pt of
          Inl e \<Rightarrow> Inl e
        | Inr prt \<Rightarrow>
            (case from_string u of
               Inl e \<Rightarrow> Inl connection_string_invalid
             | Inr (address_v6 bytes) \<Rightarrow> Inr (NetworkAddress_ctor (IPAddress_v6 bytes) (ucast prt) True tls)
             | Inr (address_v4 ulong) \<Rightarrow> Inr (NetworkAddress_ctor (IPAddress_v4 ulong) (ucast prt) True tls)))"
proof -
  define f where "f = CHR ''['' # u @ CHR '']'' # CHR '':'' # pt"
  have s: "''['' @ u @ '']:'' @ pt @ (if tls then '':tls'' else []) = f @ (if tls then '':tls'' else [])"
    by (simp add: f_def)
  have fne: "f \<noteq> []" by (simp add: f_def)
  have h: "has_tls_suffix (f @ (if tls then '':tls'' else [])) = tls"
  proof (cases tls)
    case True
    have "has_tls_suffix (f @ '':tls'')"
      using fne by (simp add: has_tls_suffix_append)
    with True show ?thesis by simp
  next
    case False
    with tls have "\<not> has_tls_suffix f" by (simp add: f_def)
    with False show ?thesis by simp
  qed
  have strip: "(if tls then take (length (f @ (if tls then '':tls'' else [])) - 4) (f @ (if tls then '':tls'' else []))
                else f @ (if tls then '':tls'' else [])) = f"
    by simp
  have at0: "string_at f 0 = CHR ''[''" by (simp add: string_at_def f_def)
  have ff: "find_first_of f (CHR '']'') 0 = Some (Suc (length u))"
    unfolding f_def by (rule find_first_of_bracket [OF u])
  have at1: "string_at f (Suc (length u) + 1) = CHR '':''"
    by (simp add: string_at_def f_def nth_append)
  have sub1: "substr_from f (Suc (length u) + 2) = Inr pt"
    by (simp add: substr_from_def f_def)
  have sub2: "substr f 1 (Suc (length u) - 1) = Inr u"
    by (simp add: substr_def f_def)
  have "NetworkAddress_parse from_string (f @ (if tls then '':tls'' else [])) =
     (case stoi pt of
        Inl e \<Rightarrow> Inl e
      | Inr prt \<Rightarrow>
          (case IPAddress_parse from_string u of
             Inl e \<Rightarrow> Inl e
           | Inr None \<Rightarrow> Inl connection_string_invalid
           | Inr (Some addr) \<Rightarrow> Inr (NetworkAddress_ctor addr (ucast prt) True tls)))"
    unfolding NetworkAddress_parse_def h Let_def strip
    by (simp only: at0 ff at1 sub1 sub2 if_True if_False option.case sum.case refl simp_thms)
  also have "\<dots> = (case stoi pt of
          Inl e \<Rightarrow> Inl e
        | Inr prt \<Rightarrow>
            (case from_string u of
               Inl e \<Rightarrow> Inl connection_string_invalid
             | Inr (address_v6 bytes) \<Rightarrow> Inr (NetworkAddress_ctor (IPAddress_v6 bytes) (ucast prt) True tls)
             | Inr (address_v4 ulong) \<Rightarrow> Inr (NetworkAddress_ctor (IPAddress_v4 ulong) (ucast prt) True tls)))"
    by (simp add: IPAddress_parse_def IPAddress_parse_try_def split: sum.splits asio_address.splits)
  finally show ?thesis
    unfolding s .
qed

lemma parse_result_shape:
  assumes "NetworkAddress_parse from_string s = Inr x"
  shows "\<exists>addr prt. x = NetworkAddress_ctor addr prt True (has_tls_suffix s) \<and>
     ((\<exists>w. addr = IPAddress_v4 w) \<or> (\<exists>bs. addr = IPAddress_v6 bs))"
  using assms unfolding NetworkAddress_parse_def Let_def IPAddress_parse_def IPAddress_parse_try_def
  by (auto split: if_splits option.splits sum.splits list.splits prod.splits asio_address.splits)

lemma stoi_literals:
  "stoi ''abc'' = Inl std_invalid_argument"
  "stoi ''99999999999'' = Inl std_out_of_range"
  "stoi ''80xyz'' = Inr 80"
  "stoi ''4800'' = Inr 4800"
  "stoi ''x'' = Inl std_invalid_argument"
  by (simp_all add: stoi_def is_int_def c_str_def NUL_def scan_int_def isspace_def isdigit_def
      digits_value_def digit_value_def)

lemma no_tls_literals:
  "\<not> has_tls_suffix (''['' @ ''::1'' @ '']:'' @ ''abc'')"
  "\<not> has_tls_suffix (''['' @ ''::1'' @ '']:'' @ ''99999999999'')"
  "\<not> has_tls_suffix (''['' @ ''::1'' @ '']:'' @ ''80xyz'')"
  "\<not> has_tls_suffix (''['' @ ''::1'' @ '']:'' @ ''4800'')"
  "\<not> has_tls_suffix (''['' @ ''::1'' @ '']:'' @ ''x'')"
  by (simp_all add: has_tls_suffix_iff)

lemma parse_bracketed_plain:
  assumes "CHR '']'' \<notin> set u" and "\<not> has_tls_suffix (''['' @ u @ '']:'' @ pt)"
  shows "NetworkAddress_parse from_string (''['' @ u @ '']:'' @ pt)
     = (case stoi pt of
          Inl e \<Rightarrow> Inl e
        | Inr prt \<Rightarrow>
            (case from_string u of
               Inl e \<Rightarrow> Inl connection_string_invalid
             | Inr (address_v6 bytes) \<Rightarrow> Inr (NetworkAddress_ctor (IPAddress_v6 bytes) (ucast prt) True False)
             | Inr (address_v4 ulong) \<Rightarrow> Inr (NetworkAddress_ctor (IPAddress_v4 ulong) (ucast prt) True False)))"
  using parse_bracketed [OF assms(1), of False pt from_string] assms(2) by simp

lemma dotted_failures:
  "NetworkAddress_parse from_string ''1.2.3.4:abc'' = Inl connection_string_invalid"
  "NetworkAddress_parse from_string ''1.2.3.4:80xyz'' = Inl connection_string_invalid"
  "NetworkAddress_parse from_string ''1.2.3.4:80:extra'' = Inl connection_string_invalid"
  "NetworkAddress_parse from_string ''1.2.3.4:x'' = Inl connection_string_invalid"
  by (simp_all add: NetworkAddress_parse_def has_tls_suffix_iff string_at_def c_str_def NUL_def
      sscanf_def address_format_def scan_int_def isspace_def isdigit_def digits_value_def
      digit_value_def EOF_def)





text \<open>
  Claim C2 fails on the code in the bracketed branch, which reads the port with
  \<^verbatim>\<open>std::stoi\<close>: a port that is no number leaves \<^verbatim>\<open>parse\<close> as \<^verbatim>\<open>std::invalid_argument\<close>,
  a port too large for an \<^verbatim>\<open>int\<close> as \<^verbatim>\<open>std::out_of_range\<close> (both before the address is
  even looked at, whatever the library does), and characters after the port are ignored.
  The dotted branch raises \<^verbatim>\<open>connection_string_invalid\<close> on the same ports.
\<close>

theorem parse_bracketed_port_unchecked:
  "NetworkAddress_parse from_string ''[::1]:abc'' = Inl std_invalid_argument \<and>
   NetworkAddress_parse from_string ''[::1]:99999999999'' = Inl std_out_of_range \<and>
   NetworkAddress_parse sample_from_string ''[::1]:80xyz''
     = Inr \<lparr>ip = IPAddress_v6 loopback_bytes, port = 80, flags = 0\<rparr> \<and>
   NetworkAddress_parse from_string ''1.2.3.4:abc'' = Inl connection_string_invalid \<and>
   NetworkAddress_parse from_string ''1.2.3.4:80xyz'' = Inl connection_string_invalid"
proof -
  have nb: "CHR '']'' \<notin> set ''::1''" by simp
  have "NetworkAddress_parse from_string (''['' @ ''::1'' @ '']:'' @ ''abc'') = Inl std_invalid_argument"
    by (simp only: parse_bracketed_plain [OF nb no_tls_literals(1)] stoi_literals sum.case)
  moreover have "NetworkAddress_parse from_string (''['' @ ''::1'' @ '']:'' @ ''99999999999'') = Inl std_out_of_range"
    by (simp only: parse_bracketed_plain [OF nb no_tls_literals(2)] stoi_literals sum.case)
  moreover have "NetworkAddress_parse sample_from_string (''['' @ ''::1'' @ '']:'' @ ''80xyz'')
     = Inr \<lparr>ip = IPAddress_v6 loopback_bytes, port = 80, flags = 0\<rparr>"
    by (simp only: parse_bracketed_plain [OF nb no_tls_literals(3)] stoi_literals sum.case)
       (simp add: sample_from_string_def NetworkAddress_ctor_def)
  ultimately show ?thesis
    using dotted_failures(1,2) [of from_string] by simp
qed

section \<open>The TLS suffix\<close>

lemma parse_with_tls:
  assumes "\<not> has_tls_suffix s" and "s \<noteq> []"
  shows "NetworkAddress_parse from_string (s @ '':tls'')
     = (case NetworkAddress_parse from_string s of
          Inl e \<Rightarrow> Inl e
        | Inr a \<Rightarrow> Inr (a\<lparr>flags := FLAG_TLS\<rparr>))"
proof -
  have h: "has_tls_suffix (s @ '':tls'')" using assms(2) by (simp add: has_tls_suffix_append)
  have t: "take (length (s @ '':tls'') - 4) (s @ '':tls'') = s" by simp
  show ?thesis
    unfolding NetworkAddress_parse_def [of _ "s @ '':tls''"] NetworkAddress_parse_def [of _ s] Let_def
    by (simp only: h t assms(1) if_True if_False)
       (simp add: NetworkAddress_ctor_def split: option.splits sum.splits list.splits prod.splits)
qed

lemma parse_empty: "NetworkAddress_parse from_string [] = Inl connection_string_invalid"
  by (simp add: NetworkAddress_parse_def has_tls_suffix_def string_at_def NUL_def c_str_def
      sscanf_def address_format_def EOF_def)

lemma toString_tls_suffix: "isTLS b \<Longrightarrow> suffix '':tls'' (NetworkAddress_toString to_string b)"
  by (simp add: NetworkAddress_toString_def suffix_def)

text \<open>
  Claim C7. Let \<open>s\<close> be a text without the suffix \<^verbatim>\<open>:tls\<close> that \<^verbatim>\<open>parse\<close> accepts, with the
  result \<open>a\<close>. Then \<open>a\<close> is not TLS; \<^verbatim>\<open>parse\<close> accepts \<open>s\<close> followed by \<^verbatim>\<open>:tls\<close> and
  returns \<open>a\<close> with the TLS flag, which reports \<^verbatim>\<open>isTLS()\<close> and whose \<^verbatim>\<open>toString()\<close> ends
  with \<^verbatim>\<open>:tls\<close>. The test of the suffix compares exactly the last four characters with
  \<^verbatim>\<open>:tls\<close>, character by character (so \<^verbatim>\<open>:TLS\<close> is no suffix), on a text longer than
  four characters.
\<close>

theorem tls_suffix_symmetry:
  assumes "\<not> suffix '':tls'' s" and "NetworkAddress_parse from_string s = Inr a"
  shows "\<not> isTLS a \<and>
     NetworkAddress_parse from_string (s @ '':tls'') = Inr (a\<lparr>flags := FLAG_TLS\<rparr>) \<and>
     isTLS (a\<lparr>flags := FLAG_TLS\<rparr>) \<and>
     suffix '':tls'' (NetworkAddress_toString to_string (a\<lparr>flags := FLAG_TLS\<rparr>)) \<and>
     has_tls_suffix t = (4 < length t \<and> drop (length t - 4) t = '':tls'')"
proof -
  have no: "\<not> has_tls_suffix s"
    using assms(1) by (simp add: has_tls_suffix_suffix)
  have ne: "s \<noteq> []"
    using assms(2) parse_empty [of from_string] by auto
  from parse_result_shape [OF assms(2)] no have "\<not> isTLS a"
    by (auto simp: NetworkAddress_ctor_sel)
  moreover have "NetworkAddress_parse from_string (s @ '':tls'') = Inr (a\<lparr>flags := FLAG_TLS\<rparr>)"
    using parse_with_tls [OF no ne, of from_string] assms(2) by simp
  ultimately show ?thesis
    using isTLS_FLAG_TLS [of a] toString_tls_suffix [OF isTLS_FLAG_TLS, of to_string a]
      has_tls_suffix_iff [of t]
    by simp
qed

theorem tls_suffix_symmetry_witness:
  "NetworkAddress_parse sample_from_string ''[2001:0db8:85a3:0000:0000:8a2e:0370:7334]:4800:tls''
     = Inr \<lparr>ip = IPAddress_v6 test_bytes, port = 4800, flags = FLAG_TLS\<rparr> \<and>
   isTLS \<lparr>ip = IPAddress_v6 test_bytes, port = 4800, flags = FLAG_TLS\<rparr> \<and>
   suffix '':tls''
     (NetworkAddress_toString sample_to_string \<lparr>ip = IPAddress_v6 test_bytes, port = 4800, flags = FLAG_TLS\<rparr>) \<and>
   \<not> has_tls_suffix ''1.2.3.4:80:TLS''"
proof -
  let ?u = "''2001:0db8:85a3:0000:0000:8a2e:0370:7334''"
  let ?a = "\<lparr>ip = IPAddress_v6 test_bytes, port = 4800, flags = 0\<rparr>"
  have nb: "CHR '']'' \<notin> set ?u" by simp
  have nt: "\<not> has_tls_suffix (''['' @ ?u @ '']:'' @ ''4800'')"
    by (simp add: has_tls_suffix_iff)
  have "NetworkAddress_parse sample_from_string (''['' @ ?u @ '']:'' @ ''4800'') = Inr ?a"
    by (simp only: parse_bracketed_plain [OF nb nt] stoi_literals sum.case)
       (simp add: sample_from_string_def NetworkAddress_ctor_def)
  then have p: "NetworkAddress_parse sample_from_string ''[2001:0db8:85a3:0000:0000:8a2e:0370:7334]:4800'' = Inr ?a"
    by simp
  have ns: "\<not> suffix '':tls'' ''[2001:0db8:85a3:0000:0000:8a2e:0370:7334]:4800''"
    by (simp add: suffix_to_prefix)
  from tls_suffix_symmetry [OF ns p, of sample_to_string "''1.2.3.4:80:TLS''"]
  show ?thesis by simp
qed

section \<open>The round trip of parse and toString\<close>

lemma format_d_no_NUL: "NUL \<notin> set (format_d i)"
  by (rule scan_int_full_props(2) [OF scan_int_format_d])

lemma format_d_nonempty: "format_d i \<noteq> []"
  by (rule scan_int_full_props(1) [OF scan_int_format_d])

lemma format_d_last: "isdigit (last (format_d i))"
  by (rule scan_int_full_props(4) [OF scan_int_format_d])

lemma toString_v4:
  "NetworkAddress_toString to_string (NetworkAddress_ctor (IPAddress_v4 w) prt True tls) =
     format_d (uint (drop_bit 24 w AND 0xff)) @ ''.'' @ format_d (uint (drop_bit 16 w AND 0xff)) @ ''.'' @
     format_d (uint (drop_bit 8 w AND 0xff)) @ ''.'' @ format_d (uint (w AND 0xff)) @ '':'' @
     format_d (uint prt) @ (if tls then '':tls'' else [])"
proof -
  define t where "t = format_d (uint (drop_bit 24 w AND 0xff)) @ ''.'' @ format_d (uint (drop_bit 16 w AND 0xff)) @ ''.'' @
     format_d (uint (drop_bit 8 w AND 0xff)) @ ''.'' @ format_d (uint (w AND 0xff))"
  have ip4: "IPAddress_toString to_string (IPAddress_v4 w) = t"
    unfolding IPAddress_toString_def t_def
    by (simp add: toV4_IPAddress_v4 sint_octet Let_def) (simp add: IPAddress_isV6_def IPAddress_v4_def)
  have "NUL \<notin> set t"
    unfolding t_def using format_d_no_NUL by (simp add: NUL_def)
  then have "c_str t = t" by (rule c_str_no_NUL)
  then have "NetworkAddress_toString to_string (NetworkAddress_ctor (IPAddress_v4 w) prt True tls) =
      t @ '':'' @ format_d (uint prt) @ (if tls then '':tls'' else [])"
    unfolding NetworkAddress_toString_def
    by (simp add: NetworkAddress_ctor_sel ip4) (simp add: IPAddress_v4_def)
  then show ?thesis by (simp add: t_def)
qed

lemma roundtrip_v4:
  "NetworkAddress_parse from_string
      (NetworkAddress_toString to_string (NetworkAddress_ctor (IPAddress_v4 w) prt True tls))
     = Inr (NetworkAddress_ctor (IPAddress_v4 w) prt True tls)"
proof -
  let ?a = "uint (drop_bit 24 w AND 0xff)" and ?b = "uint (drop_bit 16 w AND 0xff)"
  and ?c = "uint (drop_bit 8 w AND 0xff)" and ?d = "uint (w AND 0xff)"
  have "word_of_int (?a * 2 ^ 24 + ?b * 2 ^ 16 + ?c * 2 ^ 8 + ?d) =
      push_bit 24 (word_of_int ?a :: 32 word) + push_bit 16 (word_of_int ?b) + push_bit 8 (word_of_int ?c)
        + word_of_int ?d"
    by (simp only: octets_word_of_int)
  also have "\<dots> = w"
    by (simp only: word_of_int_uint octets_recombine)
  finally have w: "word_of_int (?a * 2 ^ 24 + ?b * 2 ^ 16 + ?c * 2 ^ 8 + ?d) = w" .
  have "NetworkAddress_parse from_string
      (format_d ?a @ ''.'' @ format_d ?b @ ''.'' @ format_d ?c @ ''.'' @ format_d ?d @ '':'' @
       format_d (uint prt) @ (if tls then '':tls'' else []))
     = Inr (NetworkAddress_ctor (IPAddress_v4 (word_of_int (?a * 2 ^ 24 + ?b * 2 ^ 16 + ?c * 2 ^ 8 + ?d)))
          (word_of_int (uint prt)) True tls)"
    by (rule parse_dotted [OF scan_int_format_d scan_int_format_d scan_int_format_d scan_int_format_d
          scan_int_format_d]) (simp_all add: is_long_uint)
  then show ?thesis
    by (simp only: toString_v4 w word_of_int_uint)
qed

lemma stoi_port: "stoi (format_d (uint (prt :: 16 word))) = Inr (word_of_int (uint prt))"
proof -
  have "uint prt < 65536" using uint_lt2p [of prt] by simp
  moreover have "0 \<le> uint prt" by simp
  ultimately have "- 2147483648 \<le> uint prt \<and> uint prt \<le> 2147483647" by linarith
  then have "is_int (uint prt)" by (simp add: is_int_def)
  then show ?thesis
    by (simp add: stoi_scan c_str_no_NUL [OF format_d_no_NUL] scan_int_format_d)
qed

lemma ucast_ucast_16_32: "(ucast (ucast (p :: 16 word) :: 32 word) :: 16 word) = p"
  by (rule bit_word_eqI) (auto simp: bit_simps)

lemma toString_v6:
  "NetworkAddress_toString to_string (NetworkAddress_ctor (IPAddress_v6 bs) prt True tls) =
     ''['' @ c_str (to_string bs) @ '']:'' @ format_d (uint prt) @ (if tls then '':tls'' else [])"
  by (simp add: NetworkAddress_toString_def NetworkAddress_ctor_sel IPAddress_toString_def)
     (simp add: IPAddress_v6_def IPAddress_isV6_def)

lemma roundtrip_v6:
  assumes "CHR '']'' \<notin> set (c_str (to_string bs))"
    and "from_string (c_str (to_string bs)) = Inr (address_v6 bs)"
  shows "NetworkAddress_parse from_string
      (NetworkAddress_toString to_string (NetworkAddress_ctor (IPAddress_v6 bs) prt True tls))
     = Inr (NetworkAddress_ctor (IPAddress_v6 bs) prt True tls)"
proof -
  define u where "u = c_str (to_string bs)"
  have "isdigit (last (''['' @ u @ '']:'' @ format_d (uint prt)))"
    using format_d_last [of "uint prt"] format_d_nonempty [of "uint prt"] by simp
  then have "\<not> has_tls_suffix (''['' @ u @ '']:'' @ format_d (uint prt))"
    by (intro has_tls_suffix_last_digit) simp_all
  then have "tls \<or> \<not> has_tls_suffix (''['' @ u @ '']:'' @ format_d (uint prt))" by simp
  from parse_bracketed [OF assms(1) [folded u_def] this, of from_string]
  show ?thesis
    unfolding toString_v6 u_def [symmetric]
    by (simp add: stoi_port assms(2) [folded u_def] ucast_ucast_16_32)
qed

lemma format_d_4800: "format_d 4800 = ''4800''"
  by (simp add: format_d_def dec.simps digit_char_def)

text \<open>
  Claim C1. For every address \<open>x\<close> that \<^verbatim>\<open>parse\<close> returns, parsing \<^verbatim>\<open>x.toString()\<close> gives
  \<open>x\<close> again. \<^verbatim>\<open>toString\<close> puts a v6 address in brackets and a v4 address not, then a
  colon and the port, then \<^verbatim>\<open>:tls\<close> exactly when the TLS flag is set. For a v6 address the
  text of the address comes from the library and goes back through the library, so the
  round trip needs the library's own: the text \<^verbatim>\<open>to_string\<close> prints for the bytes of
  \<open>x\<close> holds no closing bracket, and \<^verbatim>\<open>from_string\<close> reads it back as these bytes. For a
  v4 address nothing is assumed.
\<close>

theorem parse_toString_roundtrip:
  assumes "NetworkAddress_parse from_string s = Inr x"
    and "isV6 x \<longrightarrow> CHR '']'' \<notin> set (c_str (to_string (store (ip x)))) \<and>
           from_string (c_str (to_string (store (ip x)))) = Inr (address_v6 (store (ip x)))"
  shows "NetworkAddress_parse from_string (NetworkAddress_toString to_string x) = Inr x \<and>
     NetworkAddress_toString to_string x =
       (if isV6 x then ''['' @ c_str (IPAddress_toString to_string (ip x)) @ '']''
        else c_str (IPAddress_toString to_string (ip x)))
       @ '':'' @ format_d (uint (port x)) @ (if isTLS x then '':tls'' else [])"
proof -
  from parse_result_shape [OF assms(1)] obtain addr prt tls where
    x: "x = NetworkAddress_ctor addr prt True tls"
    and addr: "(\<exists>w. addr = IPAddress_v4 w) \<or> (\<exists>bs. addr = IPAddress_v6 bs)"
    by blast
  have form: "NetworkAddress_toString to_string x =
       (if isV6 x then ''['' @ c_str (IPAddress_toString to_string (ip x)) @ '']''
        else c_str (IPAddress_toString to_string (ip x)))
       @ '':'' @ format_d (uint (port x)) @ (if isTLS x then '':tls'' else [])"
    by (simp add: NetworkAddress_toString_def)
  from addr have "NetworkAddress_parse from_string (NetworkAddress_toString to_string x) = Inr x"
  proof
    assume "\<exists>w. addr = IPAddress_v4 w"
    then obtain w where "addr = IPAddress_v4 w" ..
    then show ?thesis
      unfolding x by (simp only: roundtrip_v4)
  next
    assume "\<exists>bs. addr = IPAddress_v6 bs"
    then obtain bs where bs: "addr = IPAddress_v6 bs" ..
    then have v6: "isV6 x" and st: "store (ip x) = bs"
      by (simp_all add: x NetworkAddress_ctor_sel IPAddress_v6_def)
    from assms(2) v6 st
    have "CHR '']'' \<notin> set (c_str (to_string bs))" "from_string (c_str (to_string bs)) = Inr (address_v6 bs)"
      by simp_all
    then show ?thesis
      unfolding x bs by (rule roundtrip_v6)
  qed
  with form show ?thesis by simp
qed

theorem parse_toString_roundtrip_witness:
  "NetworkAddress_parse sample_from_string ''[::1]:4800''
     = Inr \<lparr>ip = IPAddress_v6 loopback_bytes, port = 4800, flags = 0\<rparr> \<and>
   NetworkAddress_toString sample_to_string \<lparr>ip = IPAddress_v6 loopback_bytes, port = 4800, flags = 0\<rparr>
     = ''[::1]:4800'' \<and>
   NetworkAddress_parse sample_from_string
      (NetworkAddress_toString sample_to_string \<lparr>ip = IPAddress_v6 loopback_bytes, port = 4800, flags = 0\<rparr>)
     = Inr \<lparr>ip = IPAddress_v6 loopback_bytes, port = 4800, flags = 0\<rparr>"
proof -
  let ?x = "\<lparr>ip = IPAddress_v6 loopback_bytes, port = 4800, flags = 0\<rparr>"
  have nb: "CHR '']'' \<notin> set ''::1''" by simp
  have "NetworkAddress_parse sample_from_string (''['' @ ''::1'' @ '']:'' @ ''4800'') = Inr ?x"
    by (simp only: parse_bracketed_plain [OF nb no_tls_literals(4)] stoi_literals sum.case)
       (simp add: sample_from_string_def NetworkAddress_ctor_def)
  then have p: "NetworkAddress_parse sample_from_string ''[::1]:4800'' = Inr ?x" by simp
  have ctext: "c_str (sample_to_string (store (ip ?x))) = ''::1''"
    by (simp add: sample_to_string_def IPAddress_v6_def c_str_def NUL_def)
  have lib: "isV6 ?x \<longrightarrow> CHR '']'' \<notin> set (c_str (sample_to_string (store (ip ?x)))) \<and>
      sample_from_string (c_str (sample_to_string (store (ip ?x)))) = Inr (address_v6 (store (ip ?x)))"
    unfolding ctext by (simp add: sample_from_string_def IPAddress_v6_def)
  have v6: "isV6 ?x" "\<not> isTLS ?x"
    by (simp_all add: isV6_def IPAddress_isV6_def IPAddress_v6_def isTLS_def)
  have ip6: "c_str (IPAddress_toString sample_to_string (ip ?x)) = ''::1''"
    using ctext by (simp add: IPAddress_toString_def IPAddress_isV6_def IPAddress_v6_def)
  from parse_toString_roundtrip [of sample_from_string "''[::1]:4800''" ?x sample_to_string, OF p lib]
  show ?thesis
    unfolding ip6 using p v6 by (simp add: format_d_4800)
qed

text \<open>
  The assertions of the file's unit test \<^verbatim>\<open>/flow/network/ipaddress\<close>, run on the model (with
  the stand-in for the library's text conversions).
\<close>

lemma unit_test_ipaddress:
  "map_sum id (NetworkAddress_toString sample_to_string)
       (NetworkAddress_parse sample_from_string ''[::1]:4800'') = Inr ''[::1]:4800''"
  "map_sum id (\<lambda>addrParsed. (isV6 addrParsed, isTLS addrParsed, NetworkAddress_toString sample_to_string addrParsed))
       (NetworkAddress_parse sample_from_string ''[2001:0db8:85a3:0000:0000:8a2e:0370:7334]:4800'')
     = Inr (True, False, ''[2001:db8:85a3::8a2e:370:7334]:4800'')"
  "map_sum id (\<lambda>addrParsed. (isV6 addrParsed, isTLS addrParsed, NetworkAddress_toString sample_to_string addrParsed))
       (NetworkAddress_parse sample_from_string ''[2001:0db8:85a3:0000:0000:8a2e:0370:7334]:4800:tls'')
     = Inr (True, True, ''[2001:db8:85a3::8a2e:370:7334]:4800:tls'')"
proof -
  let ?u = "''2001:0db8:85a3:0000:0000:8a2e:0370:7334''"
  have nb: "CHR '']'' \<notin> set ''::1''" "CHR '']'' \<notin> set ?u" by simp_all
  have nt: "\<not> has_tls_suffix (''['' @ ?u @ '']:'' @ ''4800'')"
    by (simp add: has_tls_suffix_iff)
  have p1: "NetworkAddress_parse sample_from_string (''['' @ ''::1'' @ '']:'' @ ''4800'')
      = Inr (NetworkAddress_ctor (IPAddress_v6 loopback_bytes) 4800 True False)"
    by (simp only: parse_bracketed_plain [OF nb(1) no_tls_literals(4)] stoi_literals sum.case)
       (simp add: sample_from_string_def)
  have p2: "NetworkAddress_parse sample_from_string (''['' @ ?u @ '']:'' @ ''4800'' @ (if tls then '':tls'' else []))
      = Inr (NetworkAddress_ctor (IPAddress_v6 test_bytes) 4800 True tls)" for tls
    using nt by (simp only: parse_bracketed [OF nb(2), of tls "''4800''"] stoi_literals sum.case simp_thms)
       (simp add: sample_from_string_def)
  have ts: "NetworkAddress_toString sample_to_string (NetworkAddress_ctor (IPAddress_v6 bs) 4800 True tls)
      = ''['' @ c_str (sample_to_string bs) @ '']:4800'' @ (if tls then '':tls'' else [])" for bs tls
    by (simp add: toString_v6 format_d_4800)
  have ne: "test_bytes \<noteq> loopback_bytes"
    by (simp add: test_bytes_def loopback_bytes_def eval_nat_numeral)
  show "map_sum id (NetworkAddress_toString sample_to_string)
       (NetworkAddress_parse sample_from_string ''[::1]:4800'') = Inr ''[::1]:4800''"
    using p1 by (simp add: ts sample_to_string_def c_str_def NUL_def)
  show "map_sum id (\<lambda>addrParsed. (isV6 addrParsed, isTLS addrParsed, NetworkAddress_toString sample_to_string addrParsed))
       (NetworkAddress_parse sample_from_string ''[2001:0db8:85a3:0000:0000:8a2e:0370:7334]:4800'')
     = Inr (True, False, ''[2001:db8:85a3::8a2e:370:7334]:4800'')"
    using p2 [of False] ne
    by (simp add: ts NetworkAddress_ctor_sel sample_to_string_def c_str_def NUL_def IPAddress_sel)
  show "map_sum id (\<lambda>addrParsed. (isV6 addrParsed, isTLS addrParsed, NetworkAddress_toString sample_to_string addrParsed))
       (NetworkAddress_parse sample_from_string ''[2001:0db8:85a3:0000:0000:8a2e:0370:7334]:4800:tls'')
     = Inr (True, True, ''[2001:db8:85a3::8a2e:370:7334]:4800:tls'')"
    using p2 [of True] ne
    by (simp add: ts NetworkAddress_ctor_sel sample_to_string_def c_str_def NUL_def IPAddress_sel)
qed

section \<open>NetworkAddress::parseList\<close>

lemma split_on_no_sep: "c \<notin> set t \<Longrightarrow> split_on c t = [t]"
  by (induction t) auto

lemma split_on_append_sep: "c \<notin> set pre \<Longrightarrow> split_on c (pre @ c # rest) = pre # split_on c rest"
  by (induction pre) auto

lemma find_first_of_None:
  assumes "p \<le> length s" and "find_first_of s c p = None"
  shows "c \<notin> set (drop p s)"
proof -
  let ?t = "drop p s"
  from assms have "length ?t \<le> length (takeWhile (\<lambda>x. x \<noteq> c) ?t)"
    by (simp add: find_first_of_def Let_def split: if_splits)
  then have "takeWhile (\<lambda>x. x \<noteq> c) ?t = ?t"
    by (metis takeWhile_eq_take take_all)
  then show ?thesis
    by (auto simp: takeWhile_eq_all_conv)
qed

lemma find_first_of_Some:
  assumes "find_first_of s c p = Some i"
  shows "\<exists>pre. c \<notin> set pre \<and> drop p s = pre @ c # drop (Suc i) s \<and> i = p + length pre \<and> i < length s"
proof -
  let ?t = "drop p s"
  let ?pre = "takeWhile (\<lambda>x. x \<noteq> c) ?t"
  from assms have i: "i = p + length ?pre" and lt: "i < length s"
    by (simp_all add: find_first_of_def Let_def split: if_splits)
  have nc: "c \<notin> set ?pre" by (auto dest: set_takeWhileD)
  have "length ?pre < length ?t" using i lt by simp
  then have dne: "dropWhile (\<lambda>x. x \<noteq> c) ?t \<noteq> []"
    by (metis takeWhile_dropWhile_id append_Nil2 less_irrefl)
  then have "hd (dropWhile (\<lambda>x. x \<noteq> c) ?t) = c"
    using hd_dropWhile [of "\<lambda>x. x \<noteq> c" ?t] by simp
  with dne have dw: "dropWhile (\<lambda>x. x \<noteq> c) ?t = c # tl (dropWhile (\<lambda>x. x \<noteq> c) ?t)"
    by (cases "dropWhile (\<lambda>x. x \<noteq> c) ?t") auto
  have "dropWhile (\<lambda>x. x \<noteq> c) ?t = drop (length ?pre) ?t"
    by (simp add: dropWhile_eq_drop)
  then have "tl (dropWhile (\<lambda>x. x \<noteq> c) ?t) = drop (Suc i) s"
    by (simp add: i drop_Suc tl_drop add.commute)
  with dw have "?t = ?pre @ c # drop (Suc i) s"
    by (metis takeWhile_dropWhile_id)
  with nc i lt show ?thesis by blast
qed

declare parseList_loop.simps [simp del]

lemma parseList_loop_beyond:
  "length addrs < p \<Longrightarrow> parseList_loop from_string addrs p coord = Inr coord"
  by (subst parseList_loop.simps) simp

lemma parseList_loop_split:
  "p \<le> length addrs \<Longrightarrow>
     parseList_loop from_string addrs p coord =
       (case parse_each from_string (split_on (CHR '','') (drop p addrs)) of
          Inl e \<Rightarrow> Inl e
        | Inr as \<Rightarrow> Inr (coord @ as))"
proof (induction from_string addrs p coord rule: parseList_loop.induct)
  case (1 from_string addrs p coord)
  let ?t = "drop p addrs"
  show ?case
  proof (cases "find_first_of addrs (CHR '','') p")
    case None
    with "1.prems" have nc: "CHR '','' \<notin> set ?t" by (rule find_first_of_None)
    have sp: "split_on (CHR '','') ?t = [?t]" using nc by (rule split_on_no_sep)
    have piece: "substr addrs p (length addrs - p) = Inr ?t"
      using "1.prems" by (simp add: substr_def)
    have step: "parseList_loop from_string addrs p coord =
       (case NetworkAddress_parse from_string ?t of
          Inl e \<Rightarrow> Inl e
        | Inr a \<Rightarrow> parseList_loop from_string addrs (length addrs + 1) (coord @ [a]))"
      by (subst parseList_loop.simps) (simp add: "1.prems" None piece)
    show ?thesis
      unfolding step sp by (simp add: parseList_loop_beyond split: sum.splits)
  next
    case (Some i)
    from find_first_of_Some [OF Some] obtain pre where
      nc: "CHR '','' \<notin> set pre" and t: "?t = pre @ CHR '','' # drop (Suc i) addrs"
      and i: "i = p + length pre" and lt: "i < length addrs"
      by blast
    have sp: "split_on (CHR '','') ?t = pre # split_on (CHR '','') (drop (Suc i) addrs)"
      unfolding t using nc by (rule split_on_append_sep)
    have "take (i - p) ?t = pre"
      unfolding t by (simp add: i)
    then have piece: "substr addrs p (i - p) = Inr pre"
      using "1.prems" by (simp add: substr_def)
    have IH: "parseList_loop from_string addrs (Suc i) (coord @ [a]) =
       (case parse_each from_string (split_on (CHR '','') (drop (Suc i) addrs)) of
          Inl e \<Rightarrow> Inl e
        | Inr as \<Rightarrow> Inr ((coord @ [a]) @ as))" if "NetworkAddress_parse from_string pre = Inr a" for a
      using "1.IH" [OF "1.prems" _ piece that] Some lt by simp
    have step: "parseList_loop from_string addrs p coord =
       (case NetworkAddress_parse from_string pre of
          Inl e \<Rightarrow> Inl e
        | Inr a \<Rightarrow> parseList_loop from_string addrs (i + 1) (coord @ [a]))"
      by (subst parseList_loop.simps) (simp add: "1.prems" Some piece)
    show ?thesis
      unfolding step sp by (auto simp: IH split: sum.splits)
  qed
qed

lemma parseList_split:
  "NetworkAddress_parseList from_string addrs = parse_each from_string (split_on (CHR '','') addrs)"
  by (simp add: NetworkAddress_parseList_def parseList_loop_split split: sum.splits)

text \<open>The examples of spec section 8: two pieces in order, a doubled comma, a trailing comma,
  the empty text.\<close>

lemma parseList_examples:
  "NetworkAddress_parseList from_string ''1.2.3.4:80,300.1.1.1:80:tls''
     = Inr [\<lparr>ip = IPAddress_v4 0x01020304, port = 80, flags = 0\<rparr>,
            \<lparr>ip = IPAddress_v4 0x2c010101, port = 80, flags = FLAG_TLS\<rparr>]"
  "NetworkAddress_parseList from_string ''1.2.3.4:80,,300.1.1.1:80'' = Inl connection_string_invalid"
  "NetworkAddress_parseList from_string ''1.2.3.4:80,'' = Inl connection_string_invalid"
  "NetworkAddress_parseList from_string '''' = Inl connection_string_invalid"
proof -
  have "NetworkAddress_parse from_string
      (''1'' @ ''.'' @ ''2'' @ ''.'' @ ''3'' @ ''.'' @ ''4'' @ '':'' @ ''80'' @ (if False then '':tls'' else []))
     = Inr (NetworkAddress_ctor (IPAddress_v4 (word_of_int (1 * 2 ^ 24 + 2 * 2 ^ 16 + 3 * 2 ^ 8 + 4)))
              (word_of_int 80) True False)"
    by (rule parse_dotted [OF scan_int_literals(2) scan_int_literals(5) scan_int_literals(6)
          scan_int_literals(7) scan_int_literals(3)]) (simp_all add: is_long_def)
  then have a: "NetworkAddress_parse from_string ''1.2.3.4:80''
     = Inr \<lparr>ip = IPAddress_v4 0x01020304, port = 80, flags = 0\<rparr>"
    by (simp add: NetworkAddress_ctor_def)
  have "NetworkAddress_parse from_string
      (''300'' @ ''.'' @ ''1'' @ ''.'' @ ''1'' @ ''.'' @ ''1'' @ '':'' @ ''80'' @ (if True then '':tls'' else []))
     = Inr (NetworkAddress_ctor (IPAddress_v4 (word_of_int (300 * 2 ^ 24 + 1 * 2 ^ 16 + 1 * 2 ^ 8 + 1)))
              (word_of_int 80) True True)"
    by (rule parse_dotted [OF scan_int_literals(1) scan_int_literals(2) scan_int_literals(2)
          scan_int_literals(2) scan_int_literals(3)]) (simp_all add: is_long_def)
  moreover have "IPAddress_v4 5033230593 = IPAddress_v4 0x2c010101"
    by (rule arg_cong [where f = IPAddress_v4]) simp
  ultimately have b: "NetworkAddress_parse from_string ''300.1.1.1:80:tls''
     = Inr \<lparr>ip = IPAddress_v4 0x2c010101, port = 80, flags = FLAG_TLS\<rparr>"
    by (simp add: NetworkAddress_ctor_def)
  show "NetworkAddress_parseList from_string ''1.2.3.4:80,300.1.1.1:80:tls''
     = Inr [\<lparr>ip = IPAddress_v4 0x01020304, port = 80, flags = 0\<rparr>,
            \<lparr>ip = IPAddress_v4 0x2c010101, port = 80, flags = FLAG_TLS\<rparr>]"
    by (simp add: parseList_split a b)
  show "NetworkAddress_parseList from_string ''1.2.3.4:80,,300.1.1.1:80'' = Inl connection_string_invalid"
    by (simp add: parseList_split a parse_empty)
  show "NetworkAddress_parseList from_string ''1.2.3.4:80,'' = Inl connection_string_invalid"
    by (simp add: parseList_split a parse_empty)
  show "NetworkAddress_parseList from_string '''' = Inl connection_string_invalid"
    by (simp add: parseList_split parse_empty)
qed


text \<open>
  Claim C8. \<^verbatim>\<open>parseList\<close> is the parsing of the pieces between the commas, in order,
  first failure first (lemma \<open>parseList_split\<close>): when every piece parses the result is
  the list of the pieces' results, and when a piece fails the whole operation fails with
  the error of that piece and returns nothing. The error is the one \<^verbatim>\<open>parse\<close> raises, so
  the claim fails where \<^verbatim>\<open>parse\<close> does (claim C2): the list \<^verbatim>\<open>[::1]:x\<close> fails with
  \<^verbatim>\<open>std::invalid_argument\<close>, where the list \<^verbatim>\<open>1.2.3.4:x\<close> fails with
  \<^verbatim>\<open>connection_string_invalid\<close>, and the list \<^verbatim>\<open>[::1]:80xyz\<close> is accepted.
\<close>

theorem parseList_bracketed_port_unchecked:
  "NetworkAddress_parseList from_string ''[::1]:x'' = Inl std_invalid_argument \<and>
   NetworkAddress_parseList from_string ''1.2.3.4:x'' = Inl connection_string_invalid \<and>
   NetworkAddress_parseList sample_from_string ''[::1]:80xyz''
     = Inr [\<lparr>ip = IPAddress_v6 loopback_bytes, port = 80, flags = 0\<rparr>]"
proof -
  have nb: "CHR '']'' \<notin> set ''::1''" by simp
  have 1: "NetworkAddress_parse from_string (''['' @ ''::1'' @ '']:'' @ ''x'') = Inl std_invalid_argument"
    by (simp only: parse_bracketed_plain [OF nb no_tls_literals(5)] stoi_literals sum.case)
  have 3: "NetworkAddress_parse sample_from_string (''['' @ ''::1'' @ '']:'' @ ''80xyz'')
     = Inr \<lparr>ip = IPAddress_v6 loopback_bytes, port = 80, flags = 0\<rparr>"
    by (simp only: parse_bracketed_plain [OF nb no_tls_literals(3)] stoi_literals sum.case)
       (simp add: sample_from_string_def NetworkAddress_ctor_def)
  show ?thesis
    using 1 3 dotted_failures(4) [of from_string] by (simp add: parseList_split)
qed

end
